theory Spec2Isabelle
  imports Complex_Main
begin

section \<open>Values and exceptions\<close>

text \<open>
  The scripts of claude-pms manipulate what \<^verbatim>\<open>json.load\<close> returns: \<^verbatim>\<open>None\<close>, booleans,
  integers, floats, strings, lists and dictionaries with string keys. A dictionary keeps
  its keys in insertion order, so it is an association list; every dictionary that
  \<^verbatim>\<open>json.load\<close> builds has distinct keys. A finite float is represented by the rational it
  denotes (rounding, \<^verbatim>\<open>NaN\<close> and the infinities are outside the model). A character of a
  string is one \<^typ>\<open>char\<close>.
\<close>

datatype json =
    JNull
  | JBool bool
  | JInt int
  | JFloat rat
  | JStr string
  | JList "json list"
  | JDict "(string \<times> json) list"

text \<open>The exception classes that the modelled code can meet.\<close>

datatype py_exc =
    FileNotFoundError
  | JSONDecodeError
  | AttributeError
  | TypeError
  | KeyError
  | OtherException

subsection \<open>Dictionary operations\<close>

text \<open>\<^verbatim>\<open>d.get(k)\<close> on the items of a dictionary: the value of the first item with key \<open>k\<close>.\<close>

fun dict_get :: "(string \<times> json) list \<Rightarrow> string \<Rightarrow> json option" where
  "dict_get [] k = None"
| "dict_get ((k', v) # kvs) k = (if k' = k then Some v else dict_get kvs k)"

text \<open>\<^verbatim>\<open>d[k] = v\<close>: an existing key keeps its place and gets the new value, a new key goes
  to the end.\<close>

fun dict_set :: "(string \<times> json) list \<Rightarrow> string \<Rightarrow> json \<Rightarrow> (string \<times> json) list" where
  "dict_set [] k v = [(k, v)]"
| "dict_set ((k', v') # kvs) k v =
     (if k' = k then (k, v) # kvs else (k', v') # dict_set kvs k v)"

section \<open>Pattern extraction (extract.py)\<close>

subsection \<open>categorize_strength\<close>

definition categorize_strength :: "int \<Rightarrow> int \<Rightarrow> int \<Rightarrow> int \<Rightarrow> string" where
  "categorize_strength occurrences emerging strong critical =
     (if occurrences \<ge> critical then ''critical''
      else if occurrences \<ge> strong then ''strong''
      else if occurrences \<ge> emerging then ''emerging''
      else ''weak'')"

text \<open>The order of the four strengths, weak below emerging below strong below critical.\<close>

definition strength_rank :: "string \<Rightarrow> nat" where
  "strength_rank s =
     (if s = ''critical'' then 3 else if s = ''strong'' then 2
      else if s = ''emerging'' then 1 else 0)"

subsection \<open>Evidence maps\<close>

text \<open>
  The three \<^verbatim>\<open>extract_*\<close> functions fill a \<^verbatim>\<open>defaultdict(list)\<close> whose keys are
  descriptions and whose values are lists of session ids. A key is whatever the
  annotation holds: a string, or the value under \<^verbatim>\<open>"description"\<close>, which may be any
  hashable value. Python compares keys with \<^verbatim>\<open>==\<close>, under which \<^verbatim>\<open>True\<close>, \<^verbatim>\<open>1\<close> and
  \<^verbatim>\<open>1.0\<close> are one key; lists and dictionaries are unhashable.
\<close>

fun num_val :: "json \<Rightarrow> rat option" where
  "num_val (JBool b) = Some (if b then 1 else 0)"
| "num_val (JInt i) = Some (of_int i)"
| "num_val (JFloat r) = Some r"
| "num_val _ = None"

definition py_key_eq :: "json \<Rightarrow> json \<Rightarrow> bool" where
  "py_key_eq a b =
     (case (num_val a, num_val b) of
        (Some x, Some y) \<Rightarrow> x = y
      | (None, None) \<Rightarrow> a = b
      | _ \<Rightarrow> False)"

fun hashable :: "json \<Rightarrow> bool" where
  "hashable (JList _) = False"
| "hashable (JDict _) = False"
| "hashable _ = True"

type_synonym evidence_map = "(json \<times> json list) list"

text \<open>\<^verbatim>\<open>m[k].append(sid)\<close> on a \<^verbatim>\<open>defaultdict(list)\<close>.\<close>

fun ev_append :: "evidence_map \<Rightarrow> json \<Rightarrow> json \<Rightarrow> evidence_map" where
  "ev_append [] k sid = [(k, [sid])]"
| "ev_append ((k', ev) # m) k sid =
     (if py_key_eq k' k then (k', ev @ [sid]) # m else (k', ev) # ev_append m k sid)"

text \<open>What \<^verbatim>\<open>for x in v\<close> iterates over: the elements of a list, the one-character
  strings of a string, the keys of a dictionary; anything else is not iterable.\<close>

fun py_iter :: "json \<Rightarrow> py_exc + json list" where
  "py_iter (JList xs) = Inr xs"
| "py_iter (JStr s) = Inr (map (\<lambda>c. JStr [c]) s)"
| "py_iter (JDict kvs) = Inr (map (\<lambda>kv. JStr (fst kv)) kvs)"
| "py_iter _ = Inl TypeError"

text \<open>The body of the inner loop: one annotation \<open>pref\<close> of the session \<open>sid\<close>.\<close>

definition add_annotation :: "json \<Rightarrow> evidence_map \<Rightarrow> json \<Rightarrow> py_exc + evidence_map" where
  "add_annotation sid m pref =
     (case pref of
        JStr s \<Rightarrow> Inr (ev_append m (JStr s) sid)
      | JDict kvs \<Rightarrow>
          (case dict_get kvs ''description'' of
             None \<Rightarrow> Inr m
           | Some d \<Rightarrow> if hashable d then Inr (ev_append m d sid) else Inl TypeError)
      | _ \<Rightarrow> Inr m)"

fun add_annotations :: "json \<Rightarrow> evidence_map \<Rightarrow> json list \<Rightarrow> py_exc + evidence_map" where
  "add_annotations sid m [] = Inr m"
| "add_annotations sid m (pref # prefs) =
     (case add_annotation sid m pref of
        Inl e \<Rightarrow> Inl e
      | Inr m' \<Rightarrow> add_annotations sid m' prefs)"

text \<open>The body of the outer loop: one session. \<^verbatim>\<open>session.get\<close> exists on dictionaries
  only.\<close>

definition scan_session :: "string \<Rightarrow> evidence_map \<Rightarrow> json \<Rightarrow> py_exc + evidence_map" where
  "scan_session field m session =
     (case session of
        JDict kvs \<Rightarrow>
          (let session_id = (case dict_get kvs ''session_id'' of
                               None \<Rightarrow> JStr ''unknown'' | Some v \<Rightarrow> v)
           in case dict_get kvs field of
                None \<Rightarrow> Inr m
              | Some anns \<Rightarrow>
                  (case py_iter anns of
                     Inl e \<Rightarrow> Inl e
                   | Inr prefs \<Rightarrow> add_annotations session_id m prefs))
      | _ \<Rightarrow> Inl AttributeError)"

fun scan_sessions :: "string \<Rightarrow> evidence_map \<Rightarrow> json list \<Rightarrow> py_exc + evidence_map" where
  "scan_sessions field m [] = Inr m"
| "scan_sessions field m (session # sessions) =
     (case scan_session field m session of
        Inl e \<Rightarrow> Inl e
      | Inr m' \<Rightarrow> scan_sessions field m' sessions)"

text \<open>The three extraction functions of the source have the same body and differ in the
  field they read.\<close>

definition extract_user_preferences :: "json list \<Rightarrow> py_exc + evidence_map" where
  "extract_user_preferences sessions = scan_sessions ''user_preferences'' [] sessions"

definition extract_code_patterns :: "json list \<Rightarrow> py_exc + evidence_map" where
  "extract_code_patterns sessions = scan_sessions ''code_patterns'' [] sessions"

definition extract_anti_patterns :: "json list \<Rightarrow> py_exc + evidence_map" where
  "extract_anti_patterns sessions = scan_sessions ''anti_patterns'' [] sessions"

subsection \<open>detect_frequency_patterns\<close>

record pattern =
  pattern_id :: string
  description :: json
  category :: string
  strength :: string
  occurrences :: int
  evidence :: "json list"
  detected_at :: string

text \<open>Decimal digits of a natural number, for the f-string of the pattern id.\<close>

definition digit_char :: "nat \<Rightarrow> char" where
  "digit_char d = ''0123456789'' ! d"

fun str_of_nat :: "nat \<Rightarrow> string" where
  "str_of_nat n =
     (if n < 10 then [digit_char n]
      else str_of_nat (n div 10) @ [digit_char (n mod 10)])"

declare str_of_nat.simps [simp del]

text \<open>
  One of the three loops over \<^verbatim>\<open>items()\<close>. The built-in \<^verbatim>\<open>hash\<close> and the clock behind
  \<^verbatim>\<open>get_timestamp\<close> are parameters: \<open>hash\<close> is the hash of this process, and \<open>clock n\<close> is
  the time at which the pattern appended at index \<open>n\<close> is built.
\<close>

fun pattern_loop ::
  "(json \<Rightarrow> int) \<Rightarrow> (nat \<Rightarrow> string) \<Rightarrow> string \<Rightarrow> string \<Rightarrow> int \<Rightarrow> int \<Rightarrow> int \<Rightarrow>
   pattern list \<Rightarrow> evidence_map \<Rightarrow> pattern list" where
  "pattern_loop hash clock prefix cat emerging strong critical patterns [] = patterns"
| "pattern_loop hash clock prefix cat emerging strong critical patterns ((d, ev) # items) =
     (let occ = int (length ev) in
      pattern_loop hash clock prefix cat emerging strong critical
        (if occ \<ge> emerging
         then patterns @
           [\<lparr> pattern_id = prefix @ str_of_nat (nat (hash d mod 1000000)),
              description = d,
              category = cat,
              strength = categorize_strength occ emerging strong critical,
              occurrences = occ,
              evidence = take 10 ev,
              detected_at = clock (length patterns) \<rparr>]
         else patterns)
        items)"

definition detect_frequency_patterns ::
  "(json \<Rightarrow> int) \<Rightarrow> (nat \<Rightarrow> string) \<Rightarrow> json list \<Rightarrow> int \<Rightarrow> int \<Rightarrow> int \<Rightarrow>
   py_exc + pattern list" where
  "detect_frequency_patterns hash clock sessions emerging_threshold strong_threshold
      critical_threshold =
     (case extract_user_preferences sessions of
        Inl e \<Rightarrow> Inl e
      | Inr preferences \<Rightarrow>
     (let patterns1 = pattern_loop hash clock ''pref_'' ''preference'' emerging_threshold
                        strong_threshold critical_threshold [] preferences
      in case extract_code_patterns sessions of
        Inl e \<Rightarrow> Inl e
      | Inr code_patterns_data \<Rightarrow>
     (let patterns2 = pattern_loop hash clock ''code_'' ''code_pattern'' emerging_threshold
                        strong_threshold critical_threshold patterns1 code_patterns_data
      in case extract_anti_patterns sessions of
        Inl e \<Rightarrow> Inl e
      | Inr anti_patterns_data \<Rightarrow>
          Inr (pattern_loop hash clock ''anti_'' ''anti_pattern'' emerging_threshold
                 strong_threshold critical_threshold patterns2 anti_patterns_data))))"

text \<open>A description is emitted in a category when some pattern of the output carries
  both.\<close>

definition emitted :: "pattern list \<Rightarrow> string \<Rightarrow> json \<Rightarrow> bool" where
  "emitted pats cat d = (\<exists>p \<in> set pats. category p = cat \<and> description p = d)"

subsection \<open>Vocabulary for the extraction scenario\<close>

text \<open>The session id that the extraction loops read from a session, whether a session
  carries exactly the given list under \<^verbatim>\<open>user_preferences\<close>, and whether it lacks a field.\<close>

definition session_id_of :: "json \<Rightarrow> json" where
  "session_id_of session =
     (case session of
        JDict kvs \<Rightarrow> (case dict_get kvs ''session_id'' of None \<Rightarrow> JStr ''unknown'' | Some v \<Rightarrow> v)
      | _ \<Rightarrow> JStr ''unknown'')"

definition has_preferences :: "json list \<Rightarrow> json \<Rightarrow> bool" where
  "has_preferences prefs session =
     (case session of
        JDict kvs \<Rightarrow> dict_get kvs ''user_preferences'' = Some (JList prefs)
      | _ \<Rightarrow> False)"

definition lacks_field :: "string \<Rightarrow> json \<Rightarrow> bool" where
  "lacks_field field session =
     (case session of JDict kvs \<Rightarrow> dict_get kvs field = None | _ \<Rightarrow> False)"

text \<open>Twelve episodes with ids \<^verbatim>\<open>s1\<close> to \<^verbatim>\<open>s12\<close>, each with the same single preference.\<close>

definition twelve_sessions :: "json list" where
  "twelve_sessions =
     map (\<lambda>n. JDict [(''session_id'', JStr (''s'' @ str_of_nat n)),
                      (''timestamp'', JStr ''2025-12-31T10:00:00Z''),
                      (''user_preferences'', JList [JStr ''Always run tests before commits''])])
       [1 ..< 13]"


section \<open>Regular expressions (the part of Python's re that the scripts use)\<close>

text \<open>
  \<^verbatim>\<open>redaction.py\<close> and \<^verbatim>\<open>config.py\<close> compile their patterns with the standard module
  \<^verbatim>\<open>re\<close>, a backtracking matcher. The model covers the constructs that occur in the
  patterns of the source: literal characters, character classes, \<^verbatim>\<open>.\<close>, the greedy
  repetitions \<^verbatim>\<open>?\<close>, \<^verbatim>\<open>*\<close>, \<^verbatim>\<open>+\<close> and \<^verbatim>\<open>{n,}\<close> and the lazy \<^verbatim>\<open>*?\<close> of a single character,
  \<^verbatim>\<open>\b\<close>, \<^verbatim>\<open>^\<close>, an optional group \<^verbatim>\<open>(?:...)?\<close> and a capturing group, under the flags
  \<^verbatim>\<open>IGNORECASE\<close>, \<^verbatim>\<open>MULTILINE\<close> and \<^verbatim>\<open>DOTALL\<close>. Text is ASCII: the classes \<^verbatim>\<open>\w\<close>, \<^verbatim>\<open>\s\<close>
  and \<^verbatim>\<open>\d\<close> and case folding are those of the ASCII range.
\<close>

record re_flags =
  ignorecase :: bool
  multiline :: bool
  dotall :: bool

datatype citem = CChar char | CRange char char | CWord | CSpace | CDigit

text \<open>A matcher of one character: a literal, \<^verbatim>\<open>.\<close>, or a class (negated when the flag is
  set).\<close>

datatype chr_m = MLit char | MAny | MCls bool "citem list"

datatype atom =
    One chr_m
  | Rep chr_m nat "nat option"
  | LazyRep chr_m nat
  | WordB
  | Bol
  | OptGroup "atom list"
  | Capture "atom list"

definition code :: "char \<Rightarrow> nat" where
  "code c = of_char c"

definition is_digit :: "char \<Rightarrow> bool" where
  "is_digit c = (48 \<le> code c \<and> code c \<le> 57)"

definition is_word :: "char \<Rightarrow> bool" where
  "is_word c = (is_digit c \<or> (65 \<le> code c \<and> code c \<le> 90) \<or> (97 \<le> code c \<and> code c \<le> 122)
                \<or> code c = 95)"

text \<open>\<^verbatim>\<open>\s\<close> on a \<^verbatim>\<open>str\<close> pattern: tab, newline, vertical tab, form feed, carriage
  return, the separators \<^verbatim>\<open>\x1c\<close> to \<^verbatim>\<open>\x1f\<close>, and the space.\<close>

definition is_space :: "char \<Rightarrow> bool" where
  "is_space c = ((9 \<le> code c \<and> code c \<le> 13) \<or> (28 \<le> code c \<and> code c \<le> 32))"

definition lower_code :: "char \<Rightarrow> nat" where
  "lower_code c = (if 65 \<le> code c \<and> code c \<le> 90 then code c + 32 else code c)"

definition upper_code :: "char \<Rightarrow> nat" where
  "upper_code c = (if 97 \<le> code c \<and> code c \<le> 122 then code c - 32 else code c)"

fun citem_match :: "re_flags \<Rightarrow> citem \<Rightarrow> char \<Rightarrow> bool" where
  "citem_match fl (CChar c) x =
     (if ignorecase fl then lower_code x = lower_code c else x = c)"
| "citem_match fl (CRange a b) x =
     ((code a \<le> code x \<and> code x \<le> code b) \<or>
      (ignorecase fl \<and> ((code a \<le> lower_code x \<and> lower_code x \<le> code b) \<or>
                         (code a \<le> upper_code x \<and> upper_code x \<le> code b))))"
| "citem_match fl CWord x = is_word x"
| "citem_match fl CSpace x = is_space x"
| "citem_match fl CDigit x = is_digit x"

fun chr_match :: "re_flags \<Rightarrow> chr_m \<Rightarrow> char \<Rightarrow> bool" where
  "chr_match fl (MLit c) x = (if ignorecase fl then lower_code x = lower_code c else x = c)"
| "chr_match fl MAny x = (dotall fl \<or> x \<noteq> CHR 0x0A)"
| "chr_match fl (MCls neg items) x = (neg \<noteq> list_ex (\<lambda>it. citem_match fl it x) items)"

text \<open>
  The state of a match: the character before the current position (none at the start of
  the string), the text from the current position on, and what group 1 has captured.
\<close>

type_synonym mstate = "char option \<times> string \<times> string option"

definition advance :: "nat \<Rightarrow> mstate \<Rightarrow> mstate" where
  "advance n st =
     (case st of (prev, rest, cap) \<Rightarrow>
        (if n = 0 then prev else Some (rest ! (n - 1)), drop n rest, cap))"

text \<open>How many characters from the current position on match \<open>c\<close>.\<close>

fun run_len :: "re_flags \<Rightarrow> chr_m \<Rightarrow> string \<Rightarrow> nat" where
  "run_len fl c [] = 0"
| "run_len fl c (x # xs) = (if chr_match fl c x then Suc (run_len fl c xs) else 0)"

definition word_before :: "char option \<Rightarrow> bool" where
  "word_before prev = (case prev of None \<Rightarrow> False | Some c \<Rightarrow> is_word c)"

definition word_after :: "string \<Rightarrow> bool" where
  "word_after rest = (case rest of [] \<Rightarrow> False | c # _ \<Rightarrow> is_word c)"

text \<open>
  All the ways in which a pattern matches from a state, in the order in which the
  backtracking matcher tries them: a greedy repetition tries the longest run first, a
  lazy one the shortest, an optional group is tried before it is skipped. The first
  element of the list is the match that \<^verbatim>\<open>re\<close> reports.
\<close>

fun m_atom :: "re_flags \<Rightarrow> atom \<Rightarrow> mstate \<Rightarrow> mstate list"
  and m_atoms :: "re_flags \<Rightarrow> atom list \<Rightarrow> mstate \<Rightarrow> mstate list" where
  "m_atom fl (One c) st =
     (case st of (prev, rest, cap) \<Rightarrow>
        (case rest of
           [] \<Rightarrow> []
         | x # xs \<Rightarrow> if chr_match fl c x then [(Some x, xs, cap)] else []))"
| "m_atom fl (Rep c lo hi) st =
     (case st of (prev, rest, cap) \<Rightarrow>
        (let k = (case hi of None \<Rightarrow> run_len fl c rest | Some h \<Rightarrow> min h (run_len fl c rest))
         in map (\<lambda>n. advance n st) (rev [lo ..< Suc k])))"
| "m_atom fl (LazyRep c lo) st =
     (case st of (prev, rest, cap) \<Rightarrow>
        map (\<lambda>n. advance n st) [lo ..< Suc (run_len fl c rest)])"
| "m_atom fl WordB st =
     (case st of (prev, rest, cap) \<Rightarrow>
        if word_before prev \<noteq> word_after rest then [st] else [])"
| "m_atom fl Bol st =
     (case st of (prev, rest, cap) \<Rightarrow>
        if prev = None \<or> (multiline fl \<and> prev = Some (CHR 0x0A)) then [st] else [])"
| "m_atom fl (OptGroup g) st = m_atoms fl g st @ [st]"
| "m_atom fl (Capture g) st =
     (case st of (prev, rest, cap) \<Rightarrow>
        map (\<lambda>st'. case st' of (prev', rest', cap') \<Rightarrow>
               (prev', rest', Some (take (length rest - length rest') rest)))
          (m_atoms fl g st))"
| "m_atoms fl [] st = [st]"
| "m_atoms fl (a # as) st = concat (map (m_atoms fl as) (m_atom fl a st))"

record re_pattern =
  atoms :: "atom list"
  flags :: re_flags

text \<open>One match found by a search: the text skipped before it, the matched text, group
  1, and the state after the match.\<close>

record re_match =
  skipped :: string
  matched :: string
  group1 :: "string option"
  after :: "char option \<times> string"

text \<open>
  The match at the current position. With \<open>must_advance\<close> (set after an empty match,
  as CPython does since 3.7) an empty match at this position is refused and the matcher
  backtracks to the next alternative.
\<close>

definition match_here :: "re_pattern \<Rightarrow> char option \<Rightarrow> string \<Rightarrow> bool \<Rightarrow> re_match option" where
  "match_here p prev rest must_advance =
     (case filter (\<lambda>st'. case st' of (prev', rest', cap') \<Rightarrow>
                      \<not> must_advance \<or> length rest' < length rest)
             (m_atoms (flags p) (atoms p) (prev, rest, None)) of
        [] \<Rightarrow> None
      | (prev', rest', cap') # _ \<Rightarrow>
          Some \<lparr> skipped = [], matched = take (length rest - length rest') rest,
                 group1 = cap', after = (prev', rest') \<rparr>)"

text \<open>\<^verbatim>\<open>search\<close>: the leftmost position from the current one at which the pattern
  matches; \<open>must_advance\<close> holds for the first position only.\<close>

fun search_from :: "re_pattern \<Rightarrow> char option \<Rightarrow> string \<Rightarrow> bool \<Rightarrow> re_match option" where
  "search_from p prev [] must_advance = match_here p prev [] must_advance"
| "search_from p prev (x # xs) must_advance =
     (case match_here p prev (x # xs) must_advance of
        Some m \<Rightarrow> Some m
      | None \<Rightarrow>
          (case search_from p (Some x) xs False of
             None \<Rightarrow> None
           | Some m \<Rightarrow> Some (m\<lparr> skipped := x # skipped m \<rparr>)))"

definition re_search :: "re_pattern \<Rightarrow> string \<Rightarrow> re_match option" where
  "re_search p s = search_from p None s False"

text \<open>
  \<^verbatim>\<open>findall\<close> and \<^verbatim>\<open>sub\<close> search again from the end of each match, with \<open>must_advance\<close>
  when the match was empty. The test before the recursive call holds for every result
  of \<open>search_from\<close>: either the search has moved forward in the text, or it has found an
  empty match at the position where it started, which \<open>must_advance\<close> then excludes from
  the next search; it is what makes the loop end.
\<close>

function findall_from :: "re_pattern \<Rightarrow> char option \<Rightarrow> string \<Rightarrow> bool \<Rightarrow> re_match list" where
  "findall_from p prev rest must_advance =
     (case search_from p prev rest must_advance of
        None \<Rightarrow> []
      | Some m \<Rightarrow>
          if length (snd (after m)) < length rest
             \<or> (length (snd (after m)) = length rest \<and> matched m = [] \<and> \<not> must_advance)
          then m # findall_from p (fst (after m)) (snd (after m)) (matched m = [])
          else [])"
  by pat_completeness auto
termination
  by (relation "measure (\<lambda>(p, prev, rest, adv). 2 * length rest + (if adv then 0 else 1))")
    auto

function sub_from :: "re_pattern \<Rightarrow> string \<Rightarrow> char option \<Rightarrow> string \<Rightarrow> bool \<Rightarrow> string" where
  "sub_from p repl prev rest must_advance =
     (case search_from p prev rest must_advance of
        None \<Rightarrow> rest
      | Some m \<Rightarrow>
          if length (snd (after m)) < length rest
             \<or> (length (snd (after m)) = length rest \<and> matched m = [] \<and> \<not> must_advance)
          then skipped m @ repl @
               sub_from p repl (fst (after m)) (snd (after m)) (matched m = [])
          else rest)"
  by pat_completeness auto
termination
  by (relation "measure (\<lambda>(p, repl, prev, rest, adv). 2 * length rest + (if adv then 0 else 1))")
    auto

declare findall_from.simps [simp del]
declare sub_from.simps [simp del]

text \<open>\<^verbatim>\<open>pattern.findall(text)\<close>: group 1 of each match when the pattern has a group (the
  empty string when the group took no part), the matched text otherwise.\<close>

fun has_group :: "atom \<Rightarrow> bool" where
  "has_group (Capture g) = True"
| "has_group (OptGroup g) = list_ex has_group g"
| "has_group _ = False"

definition re_findall :: "re_pattern \<Rightarrow> string \<Rightarrow> string list" where
  "re_findall p s =
     map (\<lambda>m. if list_ex has_group (atoms p)
               then (case group1 m of None \<Rightarrow> [] | Some g \<Rightarrow> g)
               else matched m)
       (findall_from p None s False)"

text \<open>\<^verbatim>\<open>pattern.sub(repl, text)\<close> for a replacement without backslashes, which is all that
  the source uses.\<close>

definition re_sub :: "re_pattern \<Rightarrow> string \<Rightarrow> string \<Rightarrow> string" where
  "re_sub p repl s = sub_from p repl None s False"

text \<open>Helpers to write patterns: a run of literal characters, and the three repetition
  signs on a single character.\<close>

definition lits :: "string \<Rightarrow> atom list" where
  "lits s = map (\<lambda>c. One (MLit c)) s"

definition opt :: "chr_m \<Rightarrow> atom" where
  "opt c = Rep c 0 (Some 1)"

definition star :: "chr_m \<Rightarrow> atom" where
  "star c = Rep c 0 None"

definition plus :: "chr_m \<Rightarrow> atom" where
  "plus c = Rep c 1 None"

definition at_least :: "nat \<Rightarrow> chr_m \<Rightarrow> atom" where
  "at_least n c = Rep c n None"


section \<open>Redaction (redaction.py)\<close>

subsection \<open>DEFAULT_PATTERNS\<close>

text \<open>The classes that the built-in patterns share: \<^verbatim>\<open>[_-]\<close>, \<^verbatim>\<open>['"\s:=]\<close>, \<^verbatim>\<open>[\w-]\<close>,
  \<^verbatim>\<open>[^\s'",}]\<close> and \<^verbatim>\<open>\s\<close>.\<close>

definition cls_sep :: chr_m where
  "cls_sep = MCls False [CChar (CHR ''_''), CChar (CHR ''-'')]"

definition cls_assign :: chr_m where
  "cls_assign = MCls False [CChar (CHR 0x27), CChar (CHR 0x22), CSpace, CChar (CHR '':''),
                            CChar (CHR ''='')]"

definition cls_token :: chr_m where
  "cls_token = MCls False [CWord, CChar (CHR ''-'')]"

definition cls_value :: chr_m where
  "cls_value = MCls True [CSpace, CChar (CHR 0x27), CChar (CHR 0x22), CChar (CHR '',''),
                          CChar (CHR ''}'')]"

definition cls_space :: chr_m where
  "cls_space = MCls False [CSpace]"

definition no_flags :: re_flags where
  "no_flags = \<lparr> ignorecase = False, multiline = False, dotall = False \<rparr>"

definition flag_i :: re_flags where
  "flag_i = \<lparr> ignorecase = True, multiline = False, dotall = False \<rparr>"

definition flag_s :: re_flags where
  "flag_s = \<lparr> ignorecase = False, multiline = False, dotall = True \<rparr>"

text \<open>\<^verbatim>\<open>\b[A-Za-z0-9_-]{20,}\b\<close>\<close>

definition pat_token :: re_pattern where
  "pat_token = \<lparr> atoms =
       [WordB,
        at_least 20 (MCls False [CRange (CHR ''A'') (CHR ''Z''), CRange (CHR ''a'') (CHR ''z''),
                                 CRange (CHR ''0'') (CHR ''9''), CChar (CHR ''_''),
                                 CChar (CHR ''-'')]),
        WordB],
     flags = no_flags \<rparr>"

text \<open>\<^verbatim>\<open>api[_-]?key['"\s:=]+[\w-]+\<close> and its three siblings, \<^verbatim>\<open>IGNORECASE\<close>\<close>

definition pat_api_key :: re_pattern where
  "pat_api_key = \<lparr> atoms = lits ''api'' @ [opt cls_sep] @ lits ''key''
                            @ [plus cls_assign, plus cls_token],
                   flags = flag_i \<rparr>"

definition pat_access_token :: re_pattern where
  "pat_access_token = \<lparr> atoms = lits ''access'' @ [opt cls_sep] @ lits ''token''
                                 @ [plus cls_assign, plus cls_token],
                        flags = flag_i \<rparr>"

definition pat_secret_key :: re_pattern where
  "pat_secret_key = \<lparr> atoms = lits ''secret'' @ [opt cls_sep] @ lits ''key''
                               @ [plus cls_assign, plus cls_token],
                      flags = flag_i \<rparr>"

definition pat_auth_token :: re_pattern where
  "pat_auth_token = \<lparr> atoms = lits ''auth'' @ [opt cls_sep] @ lits ''token''
                               @ [plus cls_assign, plus cls_token],
                      flags = flag_i \<rparr>"

text \<open>\<^verbatim>\<open>password['"\s:=]+[^\s'",}]+\<close>, \<^verbatim>\<open>passwd['"\s:=]+[^\s'",}]+\<close> and
  \<^verbatim>\<open>credentials?['"\s:=]+[^\s'",}]+\<close>, \<^verbatim>\<open>IGNORECASE\<close>\<close>

definition pat_password :: re_pattern where
  "pat_password = \<lparr> atoms = lits ''password'' @ [plus cls_assign, plus cls_value],
                    flags = flag_i \<rparr>"

definition pat_passwd :: re_pattern where
  "pat_passwd = \<lparr> atoms = lits ''passwd'' @ [plus cls_assign, plus cls_value],
                  flags = flag_i \<rparr>"

definition pat_credentials :: re_pattern where
  "pat_credentials = \<lparr> atoms = lits ''credential'' @ [opt (MLit (CHR ''s''))]
                                @ [plus cls_assign, plus cls_value],
                       flags = flag_i \<rparr>"

text \<open>\<^verbatim>\<open>Bearer\s+[\w-]+\<close>, \<^verbatim>\<open>IGNORECASE\<close>\<close>

definition pat_bearer :: re_pattern where
  "pat_bearer = \<lparr> atoms = lits ''Bearer'' @ [plus cls_space, plus cls_token],
                  flags = flag_i \<rparr>"

text \<open>\<^verbatim>\<open>-----BEGIN\s+(?:RSA\s+)?PRIVATE\s+KEY-----.*?-----END\s+(?:RSA\s+)?PRIVATE\s+KEY-----\<close>,
  \<^verbatim>\<open>DOTALL\<close>\<close>

definition pat_private_key :: re_pattern where
  "pat_private_key = \<lparr> atoms =
       lits ''-----BEGIN'' @ [plus cls_space, OptGroup (lits ''RSA'' @ [plus cls_space])]
       @ lits ''PRIVATE'' @ [plus cls_space] @ lits ''KEY-----''
       @ [LazyRep MAny 0]
       @ lits ''-----END'' @ [plus cls_space, OptGroup (lits ''RSA'' @ [plus cls_space])]
       @ lits ''PRIVATE'' @ [plus cls_space] @ lits ''KEY-----'',
     flags = flag_s \<rparr>"

definition DEFAULT_PATTERNS :: "(re_pattern \<times> string) list" where
  "DEFAULT_PATTERNS =
     [(pat_token, ''[REDACTED_TOKEN]''),
      (pat_api_key, ''api_key=[REDACTED]''),
      (pat_access_token, ''access_token=[REDACTED]''),
      (pat_secret_key, ''secret_key=[REDACTED]''),
      (pat_auth_token, ''auth_token=[REDACTED]''),
      (pat_password, ''password=[REDACTED]''),
      (pat_passwd, ''passwd=[REDACTED]''),
      (pat_credentials, ''credentials=[REDACTED]''),
      (pat_bearer, ''Bearer [REDACTED]''),
      (pat_private_key, ''[REDACTED_PRIVATE_KEY]'')]"

subsection \<open>redact_sensitive\<close>

text \<open>The loop over the patterns: the state is the text redacted so far and the count.\<close>

fun redact_loop :: "(re_pattern \<times> string) list \<Rightarrow> string \<times> nat \<Rightarrow> string \<times> nat" where
  "redact_loop [] acc = acc"
| "redact_loop ((pattern, replacement) # patterns) (redacted_text, redaction_count) =
     (let matches = re_findall pattern redacted_text in
      redact_loop patterns
        (if matches \<noteq> []
         then (re_sub pattern replacement redacted_text, redaction_count + length matches)
         else (redacted_text, redaction_count)))"

definition redact_sensitive :: "string \<Rightarrow> (re_pattern \<times> string) list option \<Rightarrow> string \<times> nat" where
  "redact_sensitive text patterns =
     redact_loop (case patterns of None \<Rightarrow> DEFAULT_PATTERNS | Some ps \<Rightarrow> ps) (text, 0)"

subsection \<open>detect_and_redact\<close>

text \<open>
  The recursion over the value, with the two loops that fill \<^verbatim>\<open>redacted_dict\<close> and
  \<^verbatim>\<open>redacted_list\<close>; the accumulator of a loop is the container built so far and
  \<^verbatim>\<open>total_count\<close>.
\<close>

fun detect_and_redact :: "json \<Rightarrow> (re_pattern \<times> string) list option \<Rightarrow> json \<times> nat"
  and redact_dict :: "(string \<times> json) list \<Rightarrow> (re_pattern \<times> string) list option \<Rightarrow>
                      (string \<times> json) list \<times> nat \<Rightarrow> (string \<times> json) list \<times> nat"
  and redact_list :: "json list \<Rightarrow> (re_pattern \<times> string) list option \<Rightarrow>
                      json list \<times> nat \<Rightarrow> json list \<times> nat" where
  "detect_and_redact (JStr s) patterns =
     (case redact_sensitive s patterns of (redacted, count) \<Rightarrow> (JStr redacted, count))"
| "detect_and_redact (JDict kvs) patterns =
     (case redact_dict kvs patterns ([], 0) of
        (redacted_dict, total_count) \<Rightarrow> (JDict redacted_dict, total_count))"
| "detect_and_redact (JList xs) patterns =
     (case redact_list xs patterns ([], 0) of
        (redacted_list, total_count) \<Rightarrow> (JList redacted_list, total_count))"
| "detect_and_redact JNull patterns = (JNull, 0)"
| "detect_and_redact (JBool b) patterns = (JBool b, 0)"
| "detect_and_redact (JInt i) patterns = (JInt i, 0)"
| "detect_and_redact (JFloat r) patterns = (JFloat r, 0)"
| "redact_dict [] patterns acc = acc"
| "redact_dict ((key, v) # kvs) patterns acc =
     (case detect_and_redact v patterns of
        (redacted_value, count) \<Rightarrow>
          redact_dict kvs patterns (dict_set (fst acc) key redacted_value, snd acc + count))"
| "redact_list [] patterns acc = acc"
| "redact_list (item # items) patterns acc =
     (case detect_and_redact item patterns of
        (redacted_item, count) \<Rightarrow>
          redact_list items patterns (fst acc @ [redacted_item], snd acc + count))"


subsection \<open>Shape, leaves and well-formed values\<close>

text \<open>
  The shape of a value: its type, for a list the shapes of its elements in order, for a
  dictionary its keys in order with the shapes of their values. A value is well formed
  when the keys of each of its dictionaries are distinct, as they are in every Python
  dictionary. The primitives are the values that are neither string nor container.
\<close>

datatype shape =
    ShNull | ShBool | ShInt | ShFloat | ShStr
  | ShList "shape list"
  | ShDict "(string \<times> shape) list"

fun shape_of :: "json \<Rightarrow> shape" where
  "shape_of JNull = ShNull"
| "shape_of (JBool b) = ShBool"
| "shape_of (JInt i) = ShInt"
| "shape_of (JFloat r) = ShFloat"
| "shape_of (JStr s) = ShStr"
| "shape_of (JList xs) = ShList (map shape_of xs)"
| "shape_of (JDict kvs) = ShDict (map (\<lambda>kv. (fst kv, shape_of (snd kv))) kvs)"

fun wf_json :: "json \<Rightarrow> bool" where
  "wf_json (JList xs) = list_all wf_json xs"
| "wf_json (JDict kvs) = (distinct (map fst kvs) \<and> list_all (\<lambda>kv. wf_json (snd kv)) kvs)"
| "wf_json v = True"

fun is_primitive :: "json \<Rightarrow> bool" where
  "is_primitive JNull = True"
| "is_primitive (JBool b) = True"
| "is_primitive (JInt i) = True"
| "is_primitive (JFloat r) = True"
| "is_primitive v = False"



definition is_substring :: "string \<Rightarrow> string \<Rightarrow> bool" where
  "is_substring m t = list_ex (\<lambda>i. take (length m) (drop i t) = m) [0 ..< Suc (length t)]"


section \<open>JSON text (the part of the standard module json that the scripts use)\<close>

text \<open>
  \<^verbatim>\<open>json.loads\<close> and \<^verbatim>\<open>json.dumps\<close> belong to Python's library, not to the repository.
  The functions of \<^verbatim>\<open>json_handler.py\<close> take them as the parameters \<open>loads\<close> and \<open>dumps\<close>,
  so that what is proved about \<^verbatim>\<open>safe_load\<close>, \<^verbatim>\<open>load_all_sessions\<close> and \<^verbatim>\<open>merge_monthly\<close>
  holds for every parser and printer. The parser and the printer below follow the
  library's grammar and are used where a file with a concrete text is evaluated. Outside
  them are the literals \<^verbatim>\<open>NaN\<close> and \<^verbatim>\<open>Infinity\<close>, \<^verbatim>\<open>\u\<close> escapes above \<^verbatim>\<open>\u00ff\<close>, and
  the exponent notation in which Python prints large and small floats.
\<close>

definition is_json_ws :: "char \<Rightarrow> bool" where
  "is_json_ws c = (c = CHR '' '' \<or> c = CHR 0x09 \<or> c = CHR 0x0A \<or> c = CHR 0x0D)"

definition skip_ws :: "string \<Rightarrow> string" where
  "skip_ws s = dropWhile is_json_ws s"

definition hex_val :: "char \<Rightarrow> nat option" where
  "hex_val c =
     (if is_digit c then Some (code c - 48)
      else if 97 \<le> code c \<and> code c \<le> 102 then Some (code c - 87)
      else if 65 \<le> code c \<and> code c \<le> 70 then Some (code c - 55)
      else None)"

text \<open>The characters of a string literal after its opening quote, up to the closing
  one; the result is the string and the text after it.\<close>

fun parse_string :: "string \<Rightarrow> string \<Rightarrow> (string \<times> string) option" where
  "parse_string [] acc = None"
| "parse_string (c # cs) acc =
     (if c = CHR 0x22 then Some (acc, cs)
      else if c = CHR 0x5C then
        (case cs of
           [] \<Rightarrow> None
         | e # r \<Rightarrow>
             if e = CHR 0x22 then parse_string r (acc @ [CHR 0x22])
             else if e = CHR 0x5C then parse_string r (acc @ [CHR 0x5C])
             else if e = CHR ''/'' then parse_string r (acc @ [CHR ''/''])
             else if e = CHR ''b'' then parse_string r (acc @ [CHR 0x08])
             else if e = CHR ''f'' then parse_string r (acc @ [CHR 0x0C])
             else if e = CHR ''n'' then parse_string r (acc @ [CHR 0x0A])
             else if e = CHR ''r'' then parse_string r (acc @ [CHR 0x0D])
             else if e = CHR ''t'' then parse_string r (acc @ [CHR 0x09])
             else if e = CHR ''u'' then
               (case map hex_val (take 4 r) of
                  [Some a, Some b, Some c', Some d] \<Rightarrow>
                    if a = 0 \<and> b = 0
                    then parse_string (drop 4 r) (acc @ [char_of (c' * 16 + d)])
                    else None
                | _ \<Rightarrow> None)
             else None)
      else if code c < 32 then None
      else parse_string cs (acc @ [c]))"

definition nat_of_digits :: "string \<Rightarrow> nat" where
  "nat_of_digits ds = foldl (\<lambda>a c. 10 * a + (code c - 48)) 0 ds"

text \<open>A number: \<^verbatim>\<open>-?(0|[1-9][0-9]*)(\.[0-9]+)?([eE][-+]?[0-9]+)?\<close>; an integer when it has
  neither fraction nor exponent, a float otherwise.\<close>

definition parse_number :: "string \<Rightarrow> (json \<times> string) option" where
  "parse_number s =
     (let neg = (s \<noteq> [] \<and> hd s = CHR ''-'');
          s1 = (if neg then tl s else s)
      in if s1 = [] \<or> \<not> is_digit (hd s1) then None
         else
           (let ip = (if hd s1 = CHR ''0'' then ''0'' else takeWhile is_digit s1);
                s2 = drop (length ip) s1;
                has_frac = (s2 \<noteq> [] \<and> hd s2 = CHR ''.'' \<and> tl s2 \<noteq> [] \<and> is_digit (hd (tl s2)));
                fp = (if has_frac then takeWhile is_digit (tl s2) else []);
                s3 = (if has_frac then drop (Suc (length fp)) s2 else s2);
                is_e = (s3 \<noteq> [] \<and> (hd s3 = CHR ''e'' \<or> hd s3 = CHR ''E''));
                s3' = (if is_e then tl s3 else s3);
                signed = (is_e \<and> s3' \<noteq> [] \<and> (hd s3' = CHR ''-'' \<or> hd s3' = CHR ''+''));
                eneg = (signed \<and> hd s3' = CHR ''-'');
                s3'' = (if signed then tl s3' else s3');
                has_exp = (is_e \<and> s3'' \<noteq> [] \<and> is_digit (hd s3''));
                ep = (if has_exp then takeWhile is_digit s3'' else []);
                s4 = (if has_exp then drop (length ep) s3'' else s3)
            in if \<not> has_frac \<and> \<not> has_exp
               then Some (JInt ((if neg then -1 else 1) * int (nat_of_digits ip)), s4)
               else Some (JFloat ((if neg then -1 else 1)
                                  * (of_nat (nat_of_digits ip)
                                     + of_nat (nat_of_digits fp) / 10 ^ length fp)
                                  * (if eneg then 1 / 10 ^ nat_of_digits ep
                                     else 10 ^ nat_of_digits ep)), s4)))"

text \<open>
  The scanner. Each call that goes one value or one item further takes one unit of
  fuel and consumes at least one character; \<open>json_loads\<close> gives one more than the
  length of the text, and a text on which the fuel runs out has more opening brackets
  than it could close, which is a decoding error as well.
\<close>

fun scan_once :: "nat \<Rightarrow> string \<Rightarrow> (json \<times> string) option"
  and parse_elements :: "nat \<Rightarrow> string \<Rightarrow> json list \<Rightarrow> (json \<times> string) option"
  and parse_members :: "nat \<Rightarrow> string \<Rightarrow> (string \<times> json) list \<Rightarrow> (json \<times> string) option" where
  "scan_once 0 s = None"
| "scan_once (Suc n) s =
     (if s = [] then None
      else if hd s = CHR 0x22 then
        (case parse_string (tl s) [] of None \<Rightarrow> None | Some (str, r) \<Rightarrow> Some (JStr str, r))
      else if hd s = CHR ''{'' then
        (let r = skip_ws (tl s) in
         if r \<noteq> [] \<and> hd r = CHR ''}'' then Some (JDict [], tl r)
         else parse_members n r [])
      else if hd s = CHR ''['' then
        (let r = skip_ws (tl s) in
         if r \<noteq> [] \<and> hd r = CHR '']'' then Some (JList [], tl r)
         else parse_elements n r [])
      else if take 4 s = ''null'' then Some (JNull, drop 4 s)
      else if take 4 s = ''true'' then Some (JBool True, drop 4 s)
      else if take 5 s = ''false'' then Some (JBool False, drop 5 s)
      else parse_number s)"
| "parse_elements 0 s acc = None"
| "parse_elements (Suc n) s acc =
     (case scan_once n s of
        None \<Rightarrow> None
      | Some (v, r) \<Rightarrow>
          (let r' = skip_ws r in
           if r' \<noteq> [] \<and> hd r' = CHR '']'' then Some (JList (acc @ [v]), tl r')
           else if r' \<noteq> [] \<and> hd r' = CHR '','' then parse_elements n (skip_ws (tl r')) (acc @ [v])
           else None))"
| "parse_members 0 s acc = None"
| "parse_members (Suc n) s acc =
     (if s = [] \<or> hd s \<noteq> CHR 0x22 then None
      else
        (case parse_string (tl s) [] of
           None \<Rightarrow> None
         | Some (key, r) \<Rightarrow>
             (let r1 = skip_ws r in
              if r1 = [] \<or> hd r1 \<noteq> CHR '':'' then None
              else
                (case scan_once n (skip_ws (tl r1)) of
                   None \<Rightarrow> None
                 | Some (v, r2) \<Rightarrow>
                     (let r3 = skip_ws r2 in
                      if r3 \<noteq> [] \<and> hd r3 = CHR ''}'' then Some (JDict (dict_set acc key v), tl r3)
                      else if r3 \<noteq> [] \<and> hd r3 = CHR '',''
                      then parse_members n (skip_ws (tl r3)) (dict_set acc key v)
                      else None)))))"

definition json_loads :: "string \<Rightarrow> py_exc + json" where
  "json_loads s =
     (case scan_once (Suc (length s)) (skip_ws s) of
        None \<Rightarrow> Inl JSONDecodeError
      | Some (v, r) \<Rightarrow> if skip_ws r = [] then Inr v else Inl JSONDecodeError)"

subsection \<open>Printing with indent=2, ensure_ascii=False\<close>

definition hex_char :: "nat \<Rightarrow> char" where
  "hex_char d = ''0123456789abcdef'' ! d"

definition escape_char :: "char \<Rightarrow> string" where
  "escape_char c =
     (if c = CHR 0x22 then [CHR 0x5C, CHR 0x22]
      else if c = CHR 0x5C then [CHR 0x5C, CHR 0x5C]
      else if c = CHR 0x0A then [CHR 0x5C, CHR ''n'']
      else if c = CHR 0x0D then [CHR 0x5C, CHR ''r'']
      else if c = CHR 0x09 then [CHR 0x5C, CHR ''t'']
      else if c = CHR 0x08 then [CHR 0x5C, CHR ''b'']
      else if c = CHR 0x0C then [CHR 0x5C, CHR ''f'']
      else if code c < 32
      then [CHR 0x5C, CHR ''u'', CHR ''0'', CHR ''0'', hex_char (code c div 16),
            hex_char (code c mod 16)]
      else [c])"

definition dump_string :: "string \<Rightarrow> string" where
  "dump_string s = [CHR 0x22] @ concat (map escape_char s) @ [CHR 0x22]"

definition str_of_int :: "int \<Rightarrow> string" where
  "str_of_int i = (if i < 0 then CHR ''-'' # str_of_nat (nat (- i)) else str_of_nat (nat i))"

text \<open>The digits of a fraction below one, as many as it takes or as the fuel allows.\<close>

fun frac_digits :: "nat \<Rightarrow> rat \<Rightarrow> string" where
  "frac_digits 0 r = []"
| "frac_digits (Suc n) r =
     (if r = 0 then []
      else digit_char (nat \<lfloor>r * 10\<rfloor>) # frac_digits n (r * 10 - of_int \<lfloor>r * 10\<rfloor>))"

definition dump_float :: "rat \<Rightarrow> string" where
  "dump_float r =
     (let a = \<bar>r\<bar>; ip = \<lfloor>a\<rfloor>; fd = frac_digits 400 (a - of_int ip)
      in (if r < 0 then ''-'' else []) @ str_of_nat (nat ip) @ ''.'' @ (if fd = [] then ''0'' else fd))"

definition newline_indent :: "nat \<Rightarrow> string" where
  "newline_indent level = CHR 0x0A # replicate (2 * level) (CHR '' '')"

definition join :: "string \<Rightarrow> string list \<Rightarrow> string" where
  "join sep xs = (case xs of [] \<Rightarrow> [] | x # rest \<Rightarrow> x @ concat (map (\<lambda>y. sep @ y) rest))"

fun dump_value :: "nat \<Rightarrow> json \<Rightarrow> string" where
  "dump_value level JNull = ''null''"
| "dump_value level (JBool b) = (if b then ''true'' else ''false'')"
| "dump_value level (JInt i) = str_of_int i"
| "dump_value level (JFloat r) = dump_float r"
| "dump_value level (JStr s) = dump_string s"
| "dump_value level (JList xs) =
     (if xs = [] then ''[]''
      else ''['' @ newline_indent (Suc level)
           @ join ('','' @ newline_indent (Suc level)) (map (dump_value (Suc level)) xs)
           @ newline_indent level @ '']'')"
| "dump_value level (JDict kvs) =
     (if kvs = [] then ''{}''
      else ''{'' @ newline_indent (Suc level)
           @ join ('','' @ newline_indent (Suc level))
               (map (\<lambda>kv. dump_string (fst kv) @ '': '' @ dump_value (Suc level) (snd kv)) kvs)
           @ newline_indent level @ ''}'')"

definition json_dumps :: "json \<Rightarrow> string" where
  "json_dumps v = dump_value 0 v"


section \<open>Persistence (json_handler.py) and loading the partitions (extract.py)\<close>

subsection \<open>Files\<close>

text \<open>
  What a path holds: nothing, something that cannot be opened or decoded (a directory, a
  file without read permission, bytes that are not UTF-8), or a text. The file system does
  not change while one function runs, apart from what the function writes.
\<close>

datatype file_entry = Absent | Unreadable | Text string

type_synonym filesystem = "string \<Rightarrow> file_entry"

text \<open>\<^verbatim>\<open>open(filepath, 'r', encoding='utf-8')\<close> followed by \<^verbatim>\<open>read()\<close>.\<close>

definition open_read :: "filesystem \<Rightarrow> string \<Rightarrow> py_exc + string" where
  "open_read fs filepath =
     (case fs filepath of
        Absent \<Rightarrow> Inl FileNotFoundError
      | Unreadable \<Rightarrow> Inl OtherException
      | Text content \<Rightarrow> Inr content)"

subsection \<open>_attempt_repair\<close>

text \<open>
  The loop \<^verbatim>\<open>for i in range(len(content) - 1, -1, -1)\<close>; the argument \<open>Suc i\<close> stands for
  the index \<open>i\<close>, and \<open>0\<close> for the end of the loop, where the function raises
  \<^verbatim>\<open>Exception("Unable to repair JSON")\<close>. Only a \<^verbatim>\<open>JSONDecodeError\<close> of the parser is
  caught and lets the loop go on.
\<close>

fun repair_loop :: "(string \<Rightarrow> py_exc + json) \<Rightarrow> string \<Rightarrow> nat \<Rightarrow> py_exc + json" where
  "repair_loop loads content 0 = Inl OtherException"
| "repair_loop loads content (Suc i) =
     (if content ! i = CHR ''}'' \<or> content ! i = CHR '']''
      then (case loads (take (Suc i) content) of
              Inr v \<Rightarrow> Inr v
            | Inl e \<Rightarrow> if e = JSONDecodeError then repair_loop loads content i else Inl e)
      else repair_loop loads content i)"

definition attempt_repair :: "(string \<Rightarrow> py_exc + json) \<Rightarrow> filesystem \<Rightarrow> string \<Rightarrow> py_exc + json" where
  "attempt_repair loads fs filepath =
     (case open_read fs filepath of
        Inl e \<Rightarrow> Inl e
      | Inr content \<Rightarrow> repair_loop loads content (length content))"

subsection \<open>safe_load\<close>

text \<open>
  The result is a sum so that an exception that no handler catches would show as \<open>Inl\<close>.
  The three handlers are, in the order of the source, \<^verbatim>\<open>FileNotFoundError\<close>,
  \<^verbatim>\<open>json.JSONDecodeError\<close> (which tries the repair, and falls back when the repair
  raises) and \<^verbatim>\<open>Exception\<close>. Python's \<^verbatim>\<open>None\<close> is \<open>JNull\<close>, and \<open>dflt\<close> is the
  parameter \<^verbatim>\<open>default\<close>.
\<close>

definition safe_load ::
  "(string \<Rightarrow> py_exc + json) \<Rightarrow> filesystem \<Rightarrow> string \<Rightarrow> json \<Rightarrow> py_exc + json" where
  "safe_load loads fs filepath dflt =
     (case (case open_read fs filepath of Inl e \<Rightarrow> Inl e | Inr content \<Rightarrow> loads content) of
        Inr v \<Rightarrow> Inr v
      | Inl e \<Rightarrow>
          if e = FileNotFoundError then Inr (if dflt \<noteq> JNull then dflt else JDict [])
          else if e = JSONDecodeError then
            (case attempt_repair loads fs filepath of
               Inr v \<Rightarrow> Inr v
             | Inl e' \<Rightarrow> Inr (if dflt \<noteq> JNull then dflt else JDict []))
          else Inr (if dflt \<noteq> JNull then dflt else JDict []))"

subsection \<open>safe_save\<close>

text \<open>
  The environment decides whether the file operations of an attempt succeed: \<open>io n\<close>
  says so for attempt \<open>n\<close>. An attempt writes the printed document to the temporary
  file, reads it back and parses it, and renames it over the target; it fails on an error
  of the file operations or when the text read back does not parse. A failed attempt
  leaves the target as it was. The temporary file is not part of the state.
\<close>

fun save_attempts ::
  "(json \<Rightarrow> string) \<Rightarrow> (string \<Rightarrow> py_exc + json) \<Rightarrow> (nat \<Rightarrow> bool) \<Rightarrow> filesystem \<Rightarrow> string \<Rightarrow>
   json \<Rightarrow> nat \<Rightarrow> nat \<Rightarrow> bool \<times> filesystem" where
  "save_attempts dumps loads io fs filepath data attempt 0 = (False, fs)"
| "save_attempts dumps loads io fs filepath data attempt (Suc left) =
     (if io attempt \<and> (case loads (dumps data) of Inr v \<Rightarrow> True | Inl e \<Rightarrow> False)
      then (True, fs(filepath := Text (dumps data)))
      else save_attempts dumps loads io fs filepath data (Suc attempt) left)"

definition safe_save ::
  "(json \<Rightarrow> string) \<Rightarrow> (string \<Rightarrow> py_exc + json) \<Rightarrow> (nat \<Rightarrow> bool) \<Rightarrow> filesystem \<Rightarrow> string \<Rightarrow>
   json \<Rightarrow> nat \<Rightarrow> bool \<times> filesystem" where
  "safe_save dumps loads io fs filepath data max_retries =
     save_attempts dumps loads io fs filepath data 0 max_retries"

subsection \<open>merge_monthly\<close>

text \<open>
  The session record is a dictionary (the parameter is typed \<^verbatim>\<open>Dict\<close> and every caller
  builds one), given by its items. \<^verbatim>\<open>existing_data["sessions"].append\<close> exists on lists
  only; on anything else the \<^verbatim>\<open>AttributeError\<close> is caught by the handler of the
  function, which returns \<^verbatim>\<open>False\<close> without saving.
\<close>

definition merge_monthly ::
  "(json \<Rightarrow> string) \<Rightarrow> (string \<Rightarrow> py_exc + json) \<Rightarrow> (nat \<Rightarrow> bool) \<Rightarrow> filesystem \<Rightarrow>
   (string \<times> json) list \<Rightarrow> string \<Rightarrow> bool \<times> filesystem" where
  "merge_monthly dumps loads io fs session_record monthly_filepath =
     (case safe_load loads fs monthly_filepath (JDict [(''sessions'', JList [])]) of
        Inl e \<Rightarrow> (False, fs)
      | Inr loaded \<Rightarrow>
          (let existing_data = (case loaded of JDict kvs \<Rightarrow> kvs | _ \<Rightarrow> [(''sessions'', JList [])]);
               existing_data = (if dict_get existing_data ''sessions'' = None
                                then dict_set existing_data ''sessions'' (JList [])
                                else existing_data)
           in case dict_get existing_data ''sessions'' of
                Some (JList sessions) \<Rightarrow>
                  (let sessions' = sessions @ [JDict session_record];
                       existing_data = dict_set existing_data ''sessions'' (JList sessions');
                       existing_data = dict_set existing_data ''count'' (JInt (int (length sessions')));
                       existing_data = dict_set existing_data ''last_updated''
                                         (case dict_get session_record ''timestamp'' of
                                            None \<Rightarrow> JNull | Some t \<Rightarrow> t)
                   in safe_save dumps loads io fs monthly_filepath (JDict existing_data) 3)
              | _ \<Rightarrow> (False, fs)))"

subsection \<open>load_all_sessions\<close>

text \<open>\<^verbatim>\<open>"sessions" in data\<close>: a key of a dictionary, an element of a list, a part of a
  string; a number or a boolean is not a container.\<close>

definition py_contains :: "json \<Rightarrow> string \<Rightarrow> py_exc + bool" where
  "py_contains data k =
     (case data of
        JDict kvs \<Rightarrow> Inr (dict_get kvs k \<noteq> None)
      | JList xs \<Rightarrow> Inr (JStr k \<in> set xs)
      | JStr s \<Rightarrow> Inr (is_substring k s)
      | _ \<Rightarrow> Inl TypeError)"

text \<open>\<^verbatim>\<open>data["sessions"]\<close>: only a dictionary takes a string as subscript.\<close>

definition py_getitem :: "json \<Rightarrow> string \<Rightarrow> py_exc + json" where
  "py_getitem data k =
     (case data of
        JDict kvs \<Rightarrow> (case dict_get kvs k of None \<Rightarrow> Inl KeyError | Some v \<Rightarrow> Inr v)
      | _ \<Rightarrow> Inl TypeError)"

text \<open>
  One round of the loop over the monthly files; the state is \<^verbatim>\<open>all_sessions\<close> and
  \<^verbatim>\<open>corrupted_files\<close>. Every exception of the body is caught and records the file as
  corrupted.
\<close>

definition load_monthly_file ::
  "(string \<Rightarrow> py_exc + json) \<Rightarrow> filesystem \<Rightarrow> json list \<times> string list \<Rightarrow> string \<Rightarrow>
   json list \<times> string list" where
  "load_monthly_file loads fs acc monthly_file =
     (case acc of (all_sessions, corrupted_files) \<Rightarrow>
        (case safe_load loads fs monthly_file JNull of
           Inl e \<Rightarrow> (all_sessions, corrupted_files @ [monthly_file])
         | Inr data \<Rightarrow>
             if data = JNull then (all_sessions, corrupted_files @ [monthly_file])
             else
               (case py_contains data ''sessions'' of
                  Inl e \<Rightarrow> (all_sessions, corrupted_files @ [monthly_file])
                | Inr present \<Rightarrow>
                    if \<not> present then (all_sessions, corrupted_files @ [monthly_file])
                    else
                      (case py_getitem data ''sessions'' of
                         Inl e \<Rightarrow> (all_sessions, corrupted_files @ [monthly_file])
                       | Inr sessions \<Rightarrow>
                           (case sessions of
                              JList xs \<Rightarrow> (all_sessions @ xs, corrupted_files)
                            | _ \<Rightarrow> (all_sessions, corrupted_files @ [monthly_file]))))))"

text \<open>The argument \<open>monthly_files\<close> is \<^verbatim>\<open>sorted(episodic_dir.glob("sessions-*.json"))\<close>.\<close>

definition load_all_sessions ::
  "(string \<Rightarrow> py_exc + json) \<Rightarrow> filesystem \<Rightarrow> string list \<Rightarrow> json list \<times> string list" where
  "load_all_sessions loads fs monthly_files =
     foldl (load_monthly_file loads fs) ([], []) monthly_files"

subsection \<open>Vocabulary for the statements about loading\<close>

text \<open>The sessions of a loaded document: defined when the document is a dictionary with a
  list under \<^verbatim>\<open>sessions\<close>.\<close>

definition partition_sessions :: "json \<Rightarrow> json list option" where
  "partition_sessions d =
     (case d of
        JDict kvs \<Rightarrow> (case dict_get kvs ''sessions'' of Some (JList xs) \<Rightarrow> Some xs | _ \<Rightarrow> None)
      | _ \<Rightarrow> None)"

text \<open>The positions of the closing braces and brackets of a text, the last one first.\<close>

definition closer_positions :: "string \<Rightarrow> nat list" where
  "closer_positions content =
     filter (\<lambda>i. content ! i = CHR ''}'' \<or> content ! i = CHR '']'') (rev [0 ..< length content])"


text \<open>The document that \<^verbatim>\<open>load_all_sessions\<close> gets for a monthly file.\<close>

definition loaded_document :: "(string \<Rightarrow> py_exc + json) \<Rightarrow> filesystem \<Rightarrow> string \<Rightarrow> json" where
  "loaded_document loads fs monthly_file =
     (case safe_load loads fs monthly_file JNull of Inr d \<Rightarrow> d | Inl e \<Rightarrow> JNull)"


text \<open>The timestamp that \<^verbatim>\<open>merge_monthly\<close> reads from the record, and the condition under
  which \<^verbatim>\<open>safe_save\<close> with its three attempts succeeds: the file operations of one of
  the attempts succeed, and the printed document parses.\<close>

definition record_timestamp :: "(string \<times> json) list \<Rightarrow> json" where
  "record_timestamp session_record =
     (case dict_get session_record ''timestamp'' of None \<Rightarrow> JNull | Some t \<Rightarrow> t)"

definition save_succeeds ::
  "(json \<Rightarrow> string) \<Rightarrow> (string \<Rightarrow> py_exc + json) \<Rightarrow> (nat \<Rightarrow> bool) \<Rightarrow> json \<Rightarrow> bool" where
  "save_succeeds dumps loads io data =
     ((\<exists>attempt < 3. io attempt) \<and> (case loads (dumps data) of Inr v \<Rightarrow> True | Inl e \<Rightarrow> False))"


subsection \<open>Example files\<close>

text \<open>Three partitions: one well formed, one whose \<^verbatim>\<open>sessions\<close> is not a list, and one
  with the start of a second document after a complete one.\<close>

definition example_partitions :: filesystem where
  \<open>example_partitions =
     (\<lambda>p. if p = ''sessions-2025-10.json'' then Text ''{"sessions": [{"session_id": "a"}]}''
          else if p = ''sessions-2025-11.json'' then Text ''{"sessions": "not-a-list"}''
          else if p = ''sessions-2025-12.json''
          then Text ''{"sessions": [{"session_id": "b"}]}\<newline>{"incomple''
          else Absent)\<close>


text \<open>A partition whose stored \<^verbatim>\<open>count\<close> and \<^verbatim>\<open>last_updated\<close> are wrong, a file that holds a
  list, a file that holds a dictionary without \<^verbatim>\<open>sessions\<close>, and a record to append.\<close>

definition stale_partition :: filesystem where
  \<open>stale_partition =
     (\<lambda>p. if p = ''sessions-2025-12.json''
          then Text ''{"sessions": [{"session_id": "old"}], "count": 7, "last_updated": "never"}''
          else if p = ''sessions-2025-11.json'' then Text ''[1, 2, 3]''
          else if p = ''sessions-2025-10.json'' then Text ''{"note": "kept", "count": 5}''
          else Absent)\<close>

definition new_record :: "(string \<times> json) list" where
  "new_record = [(''session_id'', JStr ''new''), (''timestamp'', JStr ''2025-12-31T10:00:00Z'')]"


section \<open>Configuration (config.py)\<close>

record PMSConfig =
  trigger_precompact :: bool
  trigger_session_end :: bool
  trigger_stop :: bool
  continuous_mode :: bool
  auto_synthesize :: bool
  min_sessions :: int
  emerging_pattern :: int
  strong_pattern :: int
  critical_pattern :: int
  prefer_context :: bool
  fallback_jsonl :: bool
  redact_sensitive_flag :: bool
  custom_redaction_patterns :: "string list"
  timeout_encode :: int
  timeout_extract :: int
  timeout_synthesize :: int

text \<open>The field \<^verbatim>\<open>redact_sensitive\<close> of the source is \<open>redact_sensitive_flag\<close> here, the name
  being taken by the function of \<^verbatim>\<open>redaction.py\<close>.\<close>

definition get_default_config :: PMSConfig where
  "get_default_config =
     \<lparr> trigger_precompact = True, trigger_session_end = True, trigger_stop = False,
       continuous_mode = True, auto_synthesize = False,
       min_sessions = 10, emerging_pattern = 2, strong_pattern = 3, critical_pattern = 5,
       prefer_context = True, fallback_jsonl = True,
       redact_sensitive_flag = True, custom_redaction_patterns = [],
       timeout_encode = 30, timeout_extract = 60, timeout_synthesize = 45 \<rparr>"

definition flag_m :: re_flags where
  "flag_m = \<lparr> ignorecase = False, multiline = True, dotall = False \<rparr>"

definition flag_ms :: re_flags where
  "flag_ms = \<lparr> ignorecase = False, multiline = True, dotall = True \<rparr>"

text \<open>\<^verbatim>\<open>^---\s*\n(.*?)\n---\<close> with \<^verbatim>\<open>DOTALL | MULTILINE\<close>\<close>

definition pat_frontmatter :: re_pattern where
  "pat_frontmatter =
     \<lparr> atoms = [Bol] @ lits ''---'' @ [star cls_space, One (MLit (CHR 0x0A)),
                Capture [LazyRep MAny 0], One (MLit (CHR 0x0A))] @ lits ''---'',
       flags = flag_ms \<rparr>"

text \<open>\<^verbatim>\<open>rf'^\s*{key}:\s*(\w+)'\<close> and \<^verbatim>\<open>rf'^\s*{key}:\s*(\d+)'\<close> with \<^verbatim>\<open>MULTILINE\<close>; the keys of
  the source consist of letters and underscores.\<close>

definition pat_bool_key :: "string \<Rightarrow> re_pattern" where
  "pat_bool_key key =
     \<lparr> atoms = [Bol, star cls_space] @ lits key
               @ [One (MLit (CHR '':'')), star cls_space, Capture [plus (MCls False [CWord])]],
       flags = flag_m \<rparr>"

definition pat_int_key :: "string \<Rightarrow> re_pattern" where
  "pat_int_key key =
     \<lparr> atoms = [Bol, star cls_space] @ lits key
               @ [One (MLit (CHR '':'')), star cls_space, Capture [plus (MCls False [CDigit])]],
       flags = flag_m \<rparr>"

text \<open>\<^verbatim>\<open>match.group(1)\<close>\<close>

definition group_1 :: "re_match \<Rightarrow> string" where
  "group_1 m = (case group1 m of None \<Rightarrow> [] | Some g \<Rightarrow> g)"

text \<open>\<^verbatim>\<open>value.lower() in (...)\<close>, by the codes of the lower-case characters.\<close>

definition lower_is :: "string \<Rightarrow> string \<Rightarrow> bool" where
  "lower_is v w = (map lower_code v = map code w)"

definition parse_bool :: "string \<Rightarrow> string \<Rightarrow> bool \<Rightarrow> bool" where
  "parse_bool yaml_content key dflt =
     (case re_search (pat_bool_key key) yaml_content of
        None \<Rightarrow> dflt
      | Some m \<Rightarrow>
          (let v = group_1 m in
           if lower_is v ''true'' \<or> lower_is v ''yes'' \<or> lower_is v ''on'' \<or> lower_is v ''1''
           then True
           else if lower_is v ''false'' \<or> lower_is v ''no'' \<or> lower_is v ''off''
                   \<or> lower_is v ''0''
           then False
           else dflt))"

text \<open>\<^verbatim>\<open>int\<close> of the digits is taken to succeed, so that the handler of \<^verbatim>\<open>ValueError\<close> is
  not reached.\<close>

definition parse_int :: "string \<Rightarrow> string \<Rightarrow> int \<Rightarrow> int \<Rightarrow> int \<Rightarrow> int" where
  "parse_int yaml_content key dflt min_val max_val =
     (case re_search (pat_int_key key) yaml_content of
        None \<Rightarrow> dflt
      | Some m \<Rightarrow>
          (let v = int (nat_of_digits (group_1 m)) in max min_val (min v max_val)))"

text \<open>
  \<^verbatim>\<open>load_config\<close>, from what the path \<^verbatim>\<open>.claude/pms.local.md\<close> of the project holds. An
  error while reading is caught and gives the defaults. No step of the function compares
  the thresholds with each other.
\<close>

definition load_config :: "file_entry \<Rightarrow> PMSConfig" where
  "load_config config_file =
     (case config_file of
        Absent \<Rightarrow> get_default_config
      | Unreadable \<Rightarrow> get_default_config
      | Text content \<Rightarrow>
          (case re_search pat_frontmatter content of
             None \<Rightarrow> get_default_config
           | Some yaml_match \<Rightarrow>
               (let yaml_content = group_1 yaml_match in
                get_default_config
                  \<lparr> trigger_precompact := parse_bool yaml_content ''precompact'' True,
                    trigger_session_end := parse_bool yaml_content ''session_end'' True,
                    trigger_stop := parse_bool yaml_content ''stop'' False,
                    continuous_mode := parse_bool yaml_content ''continuous_mode'' True,
                    auto_synthesize := parse_bool yaml_content ''auto_synthesize'' False,
                    min_sessions := parse_int yaml_content ''min_sessions'' 10 1 1000,
                    emerging_pattern := parse_int yaml_content ''emerging_pattern'' 2 1 100,
                    strong_pattern := parse_int yaml_content ''strong_pattern'' 3 1 100,
                    critical_pattern := parse_int yaml_content ''critical_pattern'' 5 1 100,
                    prefer_context := parse_bool yaml_content ''prefer_context'' True,
                    fallback_jsonl := parse_bool yaml_content ''fallback_jsonl'' True,
                    redact_sensitive_flag := parse_bool yaml_content ''redact_sensitive'' True,
                    timeout_encode := parse_int yaml_content ''encode'' 30 5 300,
                    timeout_extract := parse_int yaml_content ''extract'' 60 5 600,
                    timeout_synthesize := parse_int yaml_content ''synthesize'' 45 5 300 \<rparr>)))"

definition validate_config :: "PMSConfig \<Rightarrow> bool" where
  "validate_config config =
     (if \<not> (emerging_pattern config \<le> strong_pattern config
             \<and> strong_pattern config \<le> critical_pattern config) then False
      else if timeout_encode config < 5 \<or> timeout_encode config > 300 then False
      else if timeout_extract config < 5 \<or> timeout_extract config > 600 then False
      else if timeout_synthesize config < 5 \<or> timeout_synthesize config > 300 then False
      else if min_sessions config < 1 \<or> min_sessions config > 1000 then False
      else True)"

text \<open>A configuration file whose thresholds are each in range and out of order.\<close>

definition unordered_config_file :: string where
  "unordered_config_file =
     ''---\<newline>thresholds:\<newline>  emerging_pattern: 10\<newline>  strong_pattern: 3\<newline>  critical_pattern: 5\<newline>---\<newline>''"


section \<open>Properties\<close>

subsection \<open>Strength classification and the extraction filter\<close>

lemma categorize_mono:
  assumes "e \<le> s" "s \<le> k" "c1 \<le> c2"
  shows "strength_rank (categorize_strength c1 e s k) \<le> strength_rank (categorize_strength c2 e s k)"
  using assms by (simp add: categorize_strength_def strength_rank_def)

lemma categorize_not_weak: "e \<le> c \<Longrightarrow> categorize_strength c e s k \<noteq> ''weak''"
  by (simp add: categorize_strength_def)

lemma py_key_eq_refl: "py_key_eq a a"
  by (cases a) (simp_all add: py_key_eq_def)

lemma ev_append_keys:
  "map fst (ev_append m k sid) =
     (if \<exists>k' \<in> set (map fst m). py_key_eq k' k then map fst m else map fst m @ [k])"
  by (induction m) force+

lemma ev_append_distinct: "distinct (map fst m) \<Longrightarrow> distinct (map fst (ev_append m k sid))"
  using py_key_eq_refl by (auto simp: ev_append_keys)

lemma add_annotation_distinct:
  "distinct (map fst m) \<Longrightarrow> add_annotation sid m pref = Inr m' \<Longrightarrow> distinct (map fst m')"
  by (auto simp: add_annotation_def ev_append_distinct split: json.splits option.splits if_splits)

lemma add_annotations_distinct:
  "distinct (map fst m) \<Longrightarrow> add_annotations sid m prefs = Inr m' \<Longrightarrow> distinct (map fst m')"
  by (induction prefs arbitrary: m) (auto split: sum.splits dest: add_annotation_distinct)

lemma scan_session_distinct:
  "distinct (map fst m) \<Longrightarrow> scan_session field m s = Inr m' \<Longrightarrow> distinct (map fst m')"
  by (auto simp: scan_session_def Let_def split: json.splits option.splits sum.splits dest: add_annotations_distinct)

lemma scan_sessions_distinct:
  "distinct (map fst m) \<Longrightarrow> scan_sessions field m ss = Inr m' \<Longrightarrow> distinct (map fst m')"
  by (induction ss arbitrary: m) (auto split: sum.splits dest: scan_session_distinct)

lemma pattern_loop_keeps:
  "p \<in> set pats \<Longrightarrow> p \<in> set (pattern_loop h c pre cat e s k pats items)"
  by (induction items arbitrary: pats) (auto simp: Let_def)

lemma pattern_loop_mem:
  "p \<in> set (pattern_loop h c pre cat e s k pats items) \<Longrightarrow>
   p \<in> set pats \<or>
   (category p = cat \<and> e \<le> occurrences p \<and>
    strength p = categorize_strength (occurrences p) e s k \<and>
    (\<exists>ev. (description p, ev) \<in> set items \<and> occurrences p = int (length ev) \<and>
          evidence p = take 10 ev))"
proof (induction items arbitrary: pats)
  case Nil
  then show ?case by simp
next
  case (Cons a items)
  obtain d ev where a: "a = (d, ev)" by (cases a)
  show ?case
  proof (cases "e \<le> int (length ev)")
    case True
    with Cons.prems a have "p \<in> set (pattern_loop h c pre cat e s k
        (pats @ [\<lparr> pattern_id = pre @ str_of_nat (nat (h d mod 1000000)), description = d,
            category = cat, strength = categorize_strength (int (length ev)) e s k,
            occurrences = int (length ev), evidence = take 10 ev,
            detected_at = c (length pats) \<rparr>]) items)"
      by (simp add: Let_def)
    from Cons.IH [OF this] True a show ?thesis by auto
  next
    case False
    with Cons.prems a have "p \<in> set (pattern_loop h c pre cat e s k pats items)"
      by (simp add: Let_def)
    from Cons.IH [OF this] show ?thesis by auto
  qed
qed

lemma pattern_loop_emits:
  "(d, ev) \<in> set items \<Longrightarrow> e \<le> int (length ev) \<Longrightarrow>
   \<exists>p \<in> set (pattern_loop h c pre cat e s k pats items).
      category p = cat \<and> description p = d \<and> occurrences p = int (length ev) \<and>
      strength p = categorize_strength (int (length ev)) e s k \<and> evidence p = take 10 ev"
proof (induction items arbitrary: pats)
  case Nil
  then show ?case by simp
next
  case (Cons a items)
  show ?case
  proof (cases "a = (d, ev)")
    case True
    let ?p = "\<lparr> pattern_id = pre @ str_of_nat (nat (h d mod 1000000)), description = d,
            category = cat, strength = categorize_strength (int (length ev)) e s k,
            occurrences = int (length ev), evidence = take 10 ev,
            detected_at = c (length pats) \<rparr>"
    have "?p \<in> set (pattern_loop h c pre cat e s k (pats @ [?p]) items)"
      by (rule pattern_loop_keeps) simp
    with True Cons.prems(2) show ?thesis
      by (auto simp: Let_def intro!: bexI [where x = ?p])
  next
    case False
    with Cons.prems have "(d, ev) \<in> set items" by simp
    from Cons.IH [OF this Cons.prems(2)] show ?thesis
      by (cases a) (simp add: Let_def)
  qed
qed

lemma emitted_loop_other:
  "cat' \<noteq> cat \<Longrightarrow>
   emitted (pattern_loop h c pre cat e s k pats items) cat' d = emitted pats cat' d"
proof -
  assume ne: "cat' \<noteq> cat"
  show ?thesis
  proof
    assume "emitted (pattern_loop h c pre cat e s k pats items) cat' d"
    then obtain p where p: "p \<in> set (pattern_loop h c pre cat e s k pats items)"
      "category p = cat'" "description p = d" by (auto simp: emitted_def)
    from pattern_loop_mem [OF p(1)] p(2) ne have "p \<in> set pats" by auto
    with p show "emitted pats cat' d" by (auto simp: emitted_def)
  next
    assume "emitted pats cat' d"
    then show "emitted (pattern_loop h c pre cat e s k pats items) cat' d"
      using pattern_loop_keeps by (fastforce simp: emitted_def)
  qed
qed

lemma emitted_loop_same:
  assumes "distinct (map fst items)" "(d, ev) \<in> set items"
  shows "emitted (pattern_loop h c pre cat e s k pats items) cat d =
           (emitted pats cat d \<or> e \<le> int (length ev))"
proof -
  have uniq: "\<And>ev'. (d, ev') \<in> set items \<Longrightarrow> ev' = ev"
    using assms by (meson eq_key_imp_eq_value)
  show ?thesis
  proof
    assume "emitted (pattern_loop h c pre cat e s k pats items) cat d"
    then obtain p where p: "p \<in> set (pattern_loop h c pre cat e s k pats items)"
      "category p = cat" "description p = d" by (auto simp: emitted_def)
    from pattern_loop_mem [OF p(1)] p(2,3) uniq
    show "emitted pats cat d \<or> e \<le> int (length ev)"
      by (auto simp: emitted_def)
  next
    assume "emitted pats cat d \<or> e \<le> int (length ev)"
    then show "emitted (pattern_loop h c pre cat e s k pats items) cat d"
    proof
      assume "emitted pats cat d"
      then show ?thesis using pattern_loop_keeps by (fastforce simp: emitted_def)
    next
      assume "e \<le> int (length ev)"
      from pattern_loop_emits [OF assms(2) this] show ?thesis
        unfolding emitted_def by blast
    qed
  qed
qed

lemma emitted_Nil: "emitted [] cat d = False"
  by (simp add: emitted_def)

lemma extract_distinct:
  "extract_user_preferences ss = Inr m \<Longrightarrow> distinct (map fst m)"
  "extract_code_patterns ss = Inr m \<Longrightarrow> distinct (map fst m)"
  "extract_anti_patterns ss = Inr m \<Longrightarrow> distinct (map fst m)"
  unfolding extract_user_preferences_def extract_code_patterns_def extract_anti_patterns_def
  using scan_sessions_distinct [of "[]"] by auto

lemma detect_emitted:
  assumes "detect_frequency_patterns h c ss e s k = Inr pats"
  shows "extract_user_preferences ss = Inr m \<Longrightarrow> (d, ev) \<in> set m \<Longrightarrow>
           emitted pats ''preference'' d = (e \<le> int (length ev))"
    and "extract_code_patterns ss = Inr m \<Longrightarrow> (d, ev) \<in> set m \<Longrightarrow>
           emitted pats ''code_pattern'' d = (e \<le> int (length ev))"
    and "extract_anti_patterns ss = Inr m \<Longrightarrow> (d, ev) \<in> set m \<Longrightarrow>
           emitted pats ''anti_pattern'' d = (e \<le> int (length ev))"
  using assms
  by (auto simp: detect_frequency_patterns_def Let_def emitted_loop_other emitted_loop_same
        emitted_Nil extract_distinct split: sum.splits)

lemma detect_not_weak:
  assumes "detect_frequency_patterns h c ss e s k = Inr pats" "p \<in> set pats"
  shows "strength p \<noteq> ''weak'' \<and> e \<le> occurrences p"
proof -
  have *: "\<And>pre cat pats items. p \<in> set (pattern_loop h c pre cat e s k pats items) \<Longrightarrow>
        p \<in> set pats \<or> (strength p \<noteq> ''weak'' \<and> e \<le> occurrences p)"
    using pattern_loop_mem categorize_not_weak by metis
  from assms show ?thesis
    by (auto simp: detect_frequency_patterns_def Let_def split: sum.splits dest!: *)
qed

text \<open>
  C8. With \<open>emerging \<le> strong \<le> critical\<close>, the strength that \<^verbatim>\<open>categorize_strength\<close>
  returns never goes down when the occurrence count goes up (weak below emerging below
  strong below critical). In the output of \<^verbatim>\<open>detect_frequency_patterns\<close> no pattern is
  weak; a description whose evidence has \<open>emerging - 1\<close> entries is not emitted in its
  category, and one whose evidence has \<open>emerging\<close> entries is.
\<close>

theorem threshold_monotonicity:
  assumes "emerging \<le> strong" and "strong \<le> critical"
  shows "(\<forall>c1 c2. c1 \<le> c2 \<longrightarrow>
            strength_rank (categorize_strength c1 emerging strong critical)
              \<le> strength_rank (categorize_strength c2 emerging strong critical))
       \<and> (\<forall>sessions pats.
            detect_frequency_patterns hash clock sessions emerging strong critical = Inr pats \<longrightarrow>
            (\<forall>p \<in> set pats. strength p \<noteq> ''weak'') \<and>
            (\<forall>m d ev.
               (extract_user_preferences sessions = Inr m \<and> (d, ev) \<in> set m \<longrightarrow>
                  (int (length ev) = emerging - 1 \<longrightarrow> \<not> emitted pats ''preference'' d) \<and>
                  (int (length ev) = emerging \<longrightarrow> emitted pats ''preference'' d)) \<and>
               (extract_code_patterns sessions = Inr m \<and> (d, ev) \<in> set m \<longrightarrow>
                  (int (length ev) = emerging - 1 \<longrightarrow> \<not> emitted pats ''code_pattern'' d) \<and>
                  (int (length ev) = emerging \<longrightarrow> emitted pats ''code_pattern'' d)) \<and>
               (extract_anti_patterns sessions = Inr m \<and> (d, ev) \<in> set m \<longrightarrow>
                  (int (length ev) = emerging - 1 \<longrightarrow> \<not> emitted pats ''anti_pattern'' d) \<and>
                  (int (length ev) = emerging \<longrightarrow> emitted pats ''anti_pattern'' d))))"
proof (intro conjI allI impI)
  fix c1 c2 :: int
  assume "c1 \<le> c2"
  with assms show "strength_rank (categorize_strength c1 emerging strong critical)
              \<le> strength_rank (categorize_strength c2 emerging strong critical)"
    by (rule categorize_mono)
next
  fix sessions pats
  assume "detect_frequency_patterns hash clock sessions emerging strong critical = Inr pats"
  then show "\<forall>p \<in> set pats. strength p \<noteq> ''weak''"
    using detect_not_weak by blast
qed (auto simp: detect_emitted)

theorem threshold_monotonicity_witness:
  "(2::int) \<le> 3 \<and> (3::int) \<le> 5
   \<and> strength_rank (categorize_strength 1 2 3 5) \<le> strength_rank (categorize_strength 7 2 3 5)
   \<and> detect_frequency_patterns (\<lambda>d. 0) (\<lambda>n. ''t'')
        [JDict [(''session_id'', JStr ''s1''), (''user_preferences'', JList [JStr ''a'', JStr ''b''])],
         JDict [(''session_id'', JStr ''s2''), (''user_preferences'', JList [JStr ''a''])]] 2 3 5
       = Inr [\<lparr> pattern_id = ''pref_0'', description = JStr ''a'', category = ''preference'',
                 strength = ''emerging'', occurrences = 2, evidence = [JStr ''s1'', JStr ''s2''],
                 detected_at = ''t'' \<rparr>]
   \<and> emitted [\<lparr> pattern_id = ''pref_0'', description = JStr ''a'', category = ''preference'',
                 strength = ''emerging'', occurrences = 2, evidence = [JStr ''s1'', JStr ''s2''],
                 detected_at = ''t'' \<rparr>] ''preference'' (JStr ''a'')
   \<and> \<not> emitted [\<lparr> pattern_id = ''pref_0'', description = JStr ''a'', category = ''preference'',
                 strength = ''emerging'', occurrences = 2, evidence = [JStr ''s1'', JStr ''s2''],
                 detected_at = ''t'' \<rparr>] ''preference'' (JStr ''b'')"
proof -
  let ?ss = "[JDict [(''session_id'', JStr ''s1''), (''user_preferences'', JList [JStr ''a'', JStr ''b''])],
         JDict [(''session_id'', JStr ''s2''), (''user_preferences'', JList [JStr ''a''])]]"
  let ?pats = "[\<lparr> pattern_id = ''pref_0'', description = JStr ''a'', category = ''preference'',
                 strength = ''emerging'', occurrences = 2, evidence = [JStr ''s1'', JStr ''s2''],
                 detected_at = ''t'' \<rparr>]"
  have h1: "(2::int) \<le> 3" and h2: "(3::int) \<le> 5" by simp_all
  have ex: "extract_user_preferences ?ss = Inr [(JStr ''a'', [JStr ''s1'', JStr ''s2'']), (JStr ''b'', [JStr ''s1''])]"
    by code_simp
  have ex2: "extract_code_patterns ?ss = Inr []" "extract_anti_patterns ?ss = Inr []"
    by code_simp+
  have det: "detect_frequency_patterns (\<lambda>d. 0) (\<lambda>n. ''t'') ?ss 2 3 5 = Inr ?pats"
    by code_simp
  note inst = threshold_monotonicity [OF h1 h2, of "\<lambda>d. 0" "\<lambda>n. ''t''"]
  from inst have mono: "strength_rank (categorize_strength 1 2 3 5) \<le> strength_rank (categorize_strength 7 2 3 5)"
    by simp
  from inst det have filt: "\<And>m d ev. extract_user_preferences ?ss = Inr m \<Longrightarrow> (d, ev) \<in> set m \<Longrightarrow>
      (int (length ev) = 2 - 1 \<longrightarrow> \<not> emitted ?pats ''preference'' d) \<and>
      (int (length ev) = 2 \<longrightarrow> emitted ?pats ''preference'' d)"
    by blast
  from filt [OF ex, of "JStr ''a''" "[JStr ''s1'', JStr ''s2'']"]
  have a: "emitted ?pats ''preference'' (JStr ''a'')" by simp
  from filt [OF ex, of "JStr ''b''" "[JStr ''s1'']"]
  have b: "\<not> emitted ?pats ''preference'' (JStr ''b'')" by simp
  from h1 h2 mono det a b show ?thesis by blast
qed

subsection \<open>The twelve-episode scenario\<close>

lemma scan_session_one_pref:
  "has_preferences [JStr d] s \<Longrightarrow>
   scan_session ''user_preferences'' m s = Inr (ev_append m (JStr d) (session_id_of s))"
  by (auto simp: has_preferences_def scan_session_def session_id_of_def add_annotation_def
        split: json.splits option.splits)

lemma scan_sessions_one_pref_cons:
  "list_all (has_preferences [JStr d]) ss \<Longrightarrow>
   scan_sessions ''user_preferences'' [(JStr d, ev)] ss = Inr [(JStr d, ev @ map session_id_of ss)]"
  by (induction ss arbitrary: ev) (auto simp: scan_session_one_pref py_key_eq_def)

lemma scan_sessions_one_pref:
  "list_all (has_preferences [JStr d]) ss \<Longrightarrow> ss \<noteq> [] \<Longrightarrow>
   extract_user_preferences ss = Inr [(JStr d, map session_id_of ss)]"
  unfolding extract_user_preferences_def
  by (cases ss) (auto simp: scan_session_one_pref scan_sessions_one_pref_cons)

lemma scan_session_lacks:
  "lacks_field field s \<Longrightarrow> scan_session field m s = Inr m"
  by (auto simp: lacks_field_def scan_session_def split: json.splits)

lemma scan_sessions_lacks:
  "list_all (lacks_field field) ss \<Longrightarrow> scan_sessions field m ss = Inr m"
  by (induction ss) (auto simp: scan_session_lacks)

lemma filter_pattern_loop_other:
  "cat' \<noteq> cat \<Longrightarrow>
   filter (\<lambda>p. category p = cat') (pattern_loop h c pre cat e s k pats items)
     = filter (\<lambda>p. category p = cat') pats"
  by (induction items arbitrary: pats) (auto simp: Let_def)

text \<open>
  C7. Twelve episodes that each hold \<^verbatim>\<open>user_preferences: ["Always run tests before commits"]\<close>,
  with the thresholds 2, 3 and 5: the preference patterns of the output are exactly one
  pattern, with \<open>occurrences = 12\<close> and strength critical; its evidence is the first ten
  session ids in the order of the scan, while \<open>occurrences\<close> counts all twelve. When the
  episodes carry no code patterns and no anti-patterns, this pattern is the whole output.
\<close>

theorem twelve_episodes:
  assumes len: "length sessions = 12"
    and prefs: "list_all (has_preferences [JStr ''Always run tests before commits'']) sessions"
  shows "(\<forall>pats. detect_frequency_patterns hash clock sessions 2 3 5 = Inr pats \<longrightarrow>
            filter (\<lambda>p. category p = ''preference'') pats =
              [\<lparr> pattern_id = ''pref_'' @ str_of_nat (nat (hash (JStr ''Always run tests before commits'') mod 1000000)),
                 description = JStr ''Always run tests before commits'',
                 category = ''preference'',
                 strength = ''critical'',
                 occurrences = 12,
                 evidence = take 10 (map session_id_of sessions),
                 detected_at = clock 0 \<rparr>])
       \<and> (list_all (lacks_field ''code_patterns'') sessions \<and>
          list_all (lacks_field ''anti_patterns'') sessions \<longrightarrow>
          detect_frequency_patterns hash clock sessions 2 3 5 =
            Inr [\<lparr> pattern_id = ''pref_'' @ str_of_nat (nat (hash (JStr ''Always run tests before commits'') mod 1000000)),
                 description = JStr ''Always run tests before commits'',
                 category = ''preference'',
                 strength = ''critical'',
                 occurrences = 12,
                 evidence = take 10 (map session_id_of sessions),
                 detected_at = clock 0 \<rparr>])"
proof -
  let ?d = "JStr ''Always run tests before commits''"
  from len have ne: "sessions \<noteq> []" by auto
  have ex: "extract_user_preferences sessions = Inr [(?d, map session_id_of sessions)]"
    using prefs ne by (rule scan_sessions_one_pref)
  have loop1: "pattern_loop hash clock ''pref_'' ''preference'' 2 3 5 [] [(?d, map session_id_of sessions)]
      = [\<lparr> pattern_id = ''pref_'' @ str_of_nat (nat (hash ?d mod 1000000)),
                 description = ?d, category = ''preference'', strength = ''critical'',
                 occurrences = 12, evidence = take 10 (map session_id_of sessions),
                 detected_at = clock 0 \<rparr>]"
    using len by (simp add: Let_def categorize_strength_def)
  show ?thesis
  proof (intro conjI allI impI)
    fix pats
    assume "detect_frequency_patterns hash clock sessions 2 3 5 = Inr pats"
    then show "filter (\<lambda>p. category p = ''preference'') pats =
              [\<lparr> pattern_id = ''pref_'' @ str_of_nat (nat (hash ?d mod 1000000)),
                 description = ?d, category = ''preference'', strength = ''critical'',
                 occurrences = 12, evidence = take 10 (map session_id_of sessions),
                 detected_at = clock 0 \<rparr>]"
      by (auto simp: detect_frequency_patterns_def ex loop1 Let_def filter_pattern_loop_other
            simp del: pattern_loop.simps split: sum.splits)
  next
    assume "list_all (lacks_field ''code_patterns'') sessions \<and>
          list_all (lacks_field ''anti_patterns'') sessions"
    then show "detect_frequency_patterns hash clock sessions 2 3 5 =
            Inr [\<lparr> pattern_id = ''pref_'' @ str_of_nat (nat (hash ?d mod 1000000)),
                 description = ?d, category = ''preference'', strength = ''critical'',
                 occurrences = 12, evidence = take 10 (map session_id_of sessions),
                 detected_at = clock 0 \<rparr>]"
      by (simp add: detect_frequency_patterns_def ex loop1 extract_code_patterns_def
            extract_anti_patterns_def scan_sessions_lacks del: pattern_loop.simps)
        simp
  qed
qed

theorem twelve_episodes_witness:
  "length twelve_sessions = 12
   \<and> list_all (has_preferences [JStr ''Always run tests before commits'']) twelve_sessions
   \<and> list_all (lacks_field ''code_patterns'') twelve_sessions
   \<and> list_all (lacks_field ''anti_patterns'') twelve_sessions
   \<and> detect_frequency_patterns (\<lambda>d. 7) (\<lambda>n. ''2026-01-01T00:00:00Z'') twelve_sessions 2 3 5 =
       Inr [\<lparr> pattern_id = ''pref_7'',
               description = JStr ''Always run tests before commits'',
               category = ''preference'',
               strength = ''critical'',
               occurrences = 12,
               evidence = [JStr ''s1'', JStr ''s2'', JStr ''s3'', JStr ''s4'', JStr ''s5'',
                           JStr ''s6'', JStr ''s7'', JStr ''s8'', JStr ''s9'', JStr ''s10''],
               detected_at = ''2026-01-01T00:00:00Z'' \<rparr>]"
proof -
  have h1: "length twelve_sessions = 12" by code_simp
  have h2: "list_all (has_preferences [JStr ''Always run tests before commits'']) twelve_sessions"
    by code_simp
  have h3: "list_all (lacks_field ''code_patterns'') twelve_sessions"
    and h4: "list_all (lacks_field ''anti_patterns'') twelve_sessions"
    by code_simp+
  have ev: "take 10 (map session_id_of twelve_sessions) =
      [JStr ''s1'', JStr ''s2'', JStr ''s3'', JStr ''s4'', JStr ''s5'',
       JStr ''s6'', JStr ''s7'', JStr ''s8'', JStr ''s9'', JStr ''s10'']"
    by code_simp
  have pid: "''pref_'' @ str_of_nat (nat (7 mod 1000000)) = ''pref_7''"
    by code_simp
  from twelve_episodes [OF h1 h2, of "\<lambda>d. 7" "\<lambda>n. ''2026-01-01T00:00:00Z''"] h3 h4
  have "detect_frequency_patterns (\<lambda>d. 7) (\<lambda>n. ''2026-01-01T00:00:00Z'') twelve_sessions 2 3 5 =
       Inr [\<lparr> pattern_id = ''pref_'' @ str_of_nat (nat (7 mod 1000000)),
               description = JStr ''Always run tests before commits'',
               category = ''preference'',
               strength = ''critical'',
               occurrences = 12,
               evidence = take 10 (map session_id_of twelve_sessions),
               detected_at = ''2026-01-01T00:00:00Z'' \<rparr>]"
    by blast
  with h1 h2 h3 h4 show ?thesis unfolding ev pid by blast
qed

subsection \<open>Redaction along the structure\<close>

lemma dict_set_new: "k \<notin> fst ` set d \<Longrightarrow> dict_set d k v = d @ [(k, v)]"
  by (induction d) auto

lemma redact_list_acc:
  "redact_list xs ps acc =
     (fst acc @ map (\<lambda>x. fst (detect_and_redact x ps)) xs,
      snd acc + sum_list (map (\<lambda>x. snd (detect_and_redact x ps)) xs))"
  by (induction xs arbitrary: acc) (auto split: prod.splits)

lemma redact_dict_acc:
  "distinct (map fst kvs) \<Longrightarrow> fst ` set kvs \<inter> fst ` set (fst acc) = {} \<Longrightarrow>
   redact_dict kvs ps acc =
     (fst acc @ map (\<lambda>kv. (fst kv, fst (detect_and_redact (snd kv) ps))) kvs,
      snd acc + sum_list (map (\<lambda>kv. snd (detect_and_redact (snd kv) ps)) kvs))"
proof (induction kvs arbitrary: acc)
  case Nil
  then show ?case by simp
next
  case (Cons a kvs)
  obtain k v where a: "a = (k, v)" by (cases a)
  obtain rv c where dr: "detect_and_redact v ps = (rv, c)" by (cases "detect_and_redact v ps")
  from Cons.prems a have knew: "k \<notin> fst ` set (fst acc)" by auto
  let ?acc' = "(dict_set (fst acc) k rv, snd acc + c)"
  have acc': "fst ?acc' = fst acc @ [(k, rv)]" using knew by (simp add: dict_set_new)
  have d: "distinct (map fst kvs)" using Cons.prems by simp
  have disj: "fst ` set kvs \<inter> fst ` set (fst ?acc') = {}"
    using Cons.prems a by (auto simp: dict_set_new [OF knew])
  have "redact_dict (a # kvs) ps acc = redact_dict kvs ps ?acc'"
    by (simp add: a dr)
  also have "\<dots> = (fst ?acc' @ map (\<lambda>kv. (fst kv, fst (detect_and_redact (snd kv) ps))) kvs,
      snd ?acc' + sum_list (map (\<lambda>kv. snd (detect_and_redact (snd kv) ps)) kvs))"
    by (rule Cons.IH [OF d disj])
  finally show ?case by (simp add: dict_set_new [OF knew] a dr)
qed

lemma detect_and_redact_list:
  "detect_and_redact (JList xs) ps =
     (JList (map (\<lambda>x. fst (detect_and_redact x ps)) xs),
      sum_list (map (\<lambda>x. snd (detect_and_redact x ps)) xs))"
  by (simp add: redact_list_acc)

lemma detect_and_redact_dict:
  "distinct (map fst kvs) \<Longrightarrow>
   detect_and_redact (JDict kvs) ps =
     (JDict (map (\<lambda>kv. (fst kv, fst (detect_and_redact (snd kv) ps))) kvs),
      sum_list (map (\<lambda>kv. snd (detect_and_redact (snd kv) ps)) kvs))"
  by (simp add: redact_dict_acc)

lemma detect_and_redact_primitive:
  "is_primitive v \<Longrightarrow> detect_and_redact v ps = (v, 0)"
  by (cases v) simp_all

lemma shape_preserved:
  "wf_json v \<Longrightarrow> shape_of (fst (detect_and_redact v ps)) = shape_of v"
proof (induction v)
  case (JStr s)
  then show ?case by (simp split: prod.splits)
next
  case (JList xs)
  then show ?case
    by (simp only: detect_and_redact_list) (auto simp: list_all_iff)
next
  case (JDict kvs)
  from JDict.prems have d: "distinct (map fst kvs)" by simp
  have "\<And>kv. kv \<in> set kvs \<Longrightarrow> shape_of (fst (detect_and_redact (snd kv) ps)) = shape_of (snd kv)"
  proof -
    fix kv assume kv: "kv \<in> set kvs"
    obtain k v where e: "kv = (k, v)" by (cases kv)
    from kv e JDict.prems have "wf_json v" by (auto simp: list_all_iff)
    with JDict.IH kv e show "shape_of (fst (detect_and_redact (snd kv) ps)) = shape_of (snd kv)"
      by (metis snd_conv snds.intros)
  qed
  then show ?case
    by (simp only: detect_and_redact_dict [OF d]) simp
qed simp_all

text \<open>
  C6. For every value and every pattern list, \<^verbatim>\<open>detect_and_redact\<close> works along the
  structure: on a dictionary it keeps all keys in their order, redacts every value and
  returns the sum of the counts of the values; on a list it keeps order and length,
  redacts every element and returns the sum of the counts of the elements; a primitive
  comes back unchanged with count zero; and the shape of a well-formed value is
  preserved.
\<close>

theorem detect_and_redact_structure:
  "(distinct (map fst kvs) \<longrightarrow>
      detect_and_redact (JDict kvs) ps =
        (JDict (map (\<lambda>kv. (fst kv, fst (detect_and_redact (snd kv) ps))) kvs),
         sum_list (map (\<lambda>kv. snd (detect_and_redact (snd kv) ps)) kvs)))
   \<and> detect_and_redact (JList xs) ps =
        (JList (map (\<lambda>x. fst (detect_and_redact x ps)) xs),
         sum_list (map (\<lambda>x. snd (detect_and_redact x ps)) xs))
   \<and> (is_primitive v \<longrightarrow> detect_and_redact v ps = (v, 0))
   \<and> (wf_json v \<longrightarrow> shape_of (fst (detect_and_redact v ps)) = shape_of v)"
  using detect_and_redact_dict detect_and_redact_list detect_and_redact_primitive shape_preserved
  by blast

theorem detect_and_redact_structure_witness:
  "distinct (map fst [(''user'', JStr ''alice''), (''auth'', JStr ''Bearer abc''), (''n'', JInt 42)])
   \<and> is_primitive (JInt 42)
   \<and> wf_json (JList [JStr ''Bearer abc'', JDict [(''n'', JInt 42)]])
   \<and> detect_and_redact
        (JDict [(''user'', JStr ''alice''), (''auth'', JStr ''Bearer abc''), (''n'', JInt 42)])
        (Some [(pat_bearer, ''Bearer [REDACTED]'')])
      = (JDict [(''user'', JStr ''alice''), (''auth'', JStr ''Bearer [REDACTED]''),
                (''n'', JInt 42)], 1)
   \<and> detect_and_redact (JList [JStr ''Bearer abc'', JDict [(''n'', JInt 42)]])
        (Some [(pat_bearer, ''Bearer [REDACTED]'')])
      = (JList [JStr ''Bearer [REDACTED]'', JDict [(''n'', JInt 42)]], 1)
   \<and> detect_and_redact (JInt 42) (Some [(pat_bearer, ''Bearer [REDACTED]'')]) = (JInt 42, 0)
   \<and> shape_of (fst (detect_and_redact (JList [JStr ''Bearer abc'', JDict [(''n'', JInt 42)]])
                       (Some [(pat_bearer, ''Bearer [REDACTED]'')])))
      = shape_of (JList [JStr ''Bearer abc'', JDict [(''n'', JInt 42)]])"
proof -
  let ?kvs = "[(''user'', JStr ''alice''), (''auth'', JStr ''Bearer abc''), (''n'', JInt 42)]"
  let ?xs = "[JStr ''Bearer abc'', JDict [(''n'', JInt 42)]]"
  let ?ps = "Some [(pat_bearer, ''Bearer [REDACTED]'')]"
  have h1: "distinct (map fst ?kvs)" by simp
  have h2: "is_primitive (JInt 42)" by simp
  have h3: "wf_json (JList ?xs)" by simp
  have e1: "detect_and_redact (JStr ''alice'') ?ps = (JStr ''alice'', 0)" by code_simp
  have e2: "detect_and_redact (JStr ''Bearer abc'') ?ps = (JStr ''Bearer [REDACTED]'', 1)"
    by code_simp
  have e3: "detect_and_redact (JDict [(''n'', JInt 42)]) ?ps = (JDict [(''n'', JInt 42)], 0)"
    by code_simp
  have e4: "detect_and_redact (JInt 42) ?ps = (JInt 42, 0)" by simp
  note inst = detect_and_redact_structure [of ?kvs ?ps ?xs "JInt 42"]
  from inst h1 have d: "detect_and_redact (JDict ?kvs) ?ps =
      (JDict [(''user'', JStr ''alice''), (''auth'', JStr ''Bearer [REDACTED]''), (''n'', JInt 42)], 1)"
    by (simp add: e1 e2 e4 del: detect_and_redact.simps)
  from inst have l: "detect_and_redact (JList ?xs) ?ps =
      (JList [JStr ''Bearer [REDACTED]'', JDict [(''n'', JInt 42)]], 1)"
    by (simp add: e2 e3 del: detect_and_redact.simps)
  from inst h2 have p: "detect_and_redact (JInt 42) ?ps = (JInt 42, 0)" by blast
  from detect_and_redact_structure [of "[]" ?ps "[]" "JList ?xs"] h3
  have s: "shape_of (fst (detect_and_redact (JList ?xs) ?ps)) = shape_of (JList ?xs)" by blast
  from h1 h2 h3 d l p s show ?thesis by blast
qed

subsection \<open>What a pattern application replaces\<close>












subsection \<open>Loading: safe_load, the repair, load_all_sessions\<close>

lemma repair_loop_find:
  "n \<le> length content \<Longrightarrow>
   repair_loop loads content n =
     (case find (\<lambda>i. loads (take (Suc i) content) \<noteq> Inl JSONDecodeError)
             (filter (\<lambda>i. content ! i = CHR ''}'' \<or> content ! i = CHR '']'') (rev [0 ..< n])) of
        None \<Rightarrow> Inl OtherException
      | Some i \<Rightarrow> loads (take (Suc i) content))"
proof (induction n)
  case 0
  then show ?case by simp
next
  case (Suc n)
  then have IH: "repair_loop loads content n =
     (case find (\<lambda>i. loads (take (Suc i) content) \<noteq> Inl JSONDecodeError)
             (filter (\<lambda>i. content ! i = CHR ''}'' \<or> content ! i = CHR '']'') (rev [0 ..< n])) of
        None \<Rightarrow> Inl OtherException
      | Some i \<Rightarrow> loads (take (Suc i) content))" by simp
  show ?case
  proof (cases "content ! n = CHR ''}'' \<or> content ! n = CHR '']''")
    case False
    then show ?thesis using IH by simp
  next
    case True
    show ?thesis
    proof (cases "loads (take (Suc n) content)")
      case (Inr v)
      with True show ?thesis by simp
    next
      case (Inl e)
      with True IH show ?thesis by (cases "e = JSONDecodeError") auto
    qed
  qed
qed

lemma attempt_repair_find:
  "attempt_repair loads fs filepath =
     (case open_read fs filepath of
        Inl e \<Rightarrow> Inl e
      | Inr content \<Rightarrow>
          (case find (\<lambda>i. loads (take (Suc i) content) \<noteq> Inl JSONDecodeError)
                  (closer_positions content) of
             None \<Rightarrow> Inl OtherException
           | Some i \<Rightarrow> loads (take (Suc i) content)))"
  by (simp add: attempt_repair_def closer_positions_def repair_loop_find split: sum.splits)

lemma safe_load_total: "\<exists>v. safe_load loads fs filepath dflt = Inr v"
  by (auto simp: safe_load_def split: sum.splits)

text \<open>
  C3 (amended). \<^verbatim>\<open>safe_load\<close> never raises. When the file is absent, when it cannot be
  read, and when its text does not parse and the repair fails (or the parser raises
  something else), it returns the given default if that is not \<^verbatim>\<open>None\<close>, and an empty
  dictionary if it is.
\<close>

theorem safe_load_never_raises:
  "(\<exists>v. safe_load loads fs filepath dflt = Inr v)
   \<and> (fs filepath = Absent \<longrightarrow>
        safe_load loads fs filepath dflt = Inr (if dflt \<noteq> JNull then dflt else JDict []))
   \<and> (fs filepath = Unreadable \<longrightarrow>
        safe_load loads fs filepath dflt = Inr (if dflt \<noteq> JNull then dflt else JDict []))
   \<and> (\<forall>content e.
        fs filepath = Text content \<and> loads content = Inl e \<and>
        (e = JSONDecodeError \<longrightarrow> (\<exists>e'. attempt_repair loads fs filepath = Inl e')) \<longrightarrow>
        safe_load loads fs filepath dflt = Inr (if dflt \<noteq> JNull then dflt else JDict []))"
  by (auto simp: safe_load_def open_read_def split: sum.splits)

theorem safe_load_never_raises_witness:
  \<open>(\<lambda>p. if p = ''corrupted.json'' then Text ''{"key": "value", "incomplete'' else Absent)
      ''nonexistent.json'' = Absent
   \<and> safe_load json_loads
        (\<lambda>p. if p = ''corrupted.json'' then Text ''{"key": "value", "incomplete'' else Absent)
        ''nonexistent.json'' (JDict [(''empty'', JBool True)])
      = Inr (JDict [(''empty'', JBool True)])
   \<and> json_loads ''{"key": "value", "incomplete'' = Inl JSONDecodeError
   \<and> attempt_repair json_loads
        (\<lambda>p. if p = ''corrupted.json'' then Text ''{"key": "value", "incomplete'' else Absent)
        ''corrupted.json'' = Inl OtherException
   \<and> safe_load json_loads
        (\<lambda>p. if p = ''corrupted.json'' then Text ''{"key": "value", "incomplete'' else Absent)
        ''corrupted.json'' (JDict [(''corrupted'', JBool True)])
      = Inr (JDict [(''corrupted'', JBool True)])\<close>
proof -
  let ?fs = \<open>\<lambda>p. if p = ''corrupted.json'' then Text ''{"key": "value", "incomplete'' else Absent\<close>
  have a: "?fs ''nonexistent.json'' = Absent" by simp
  have t: \<open>?fs ''corrupted.json'' = Text ''{"key": "value", "incomplete''\<close> by simp
  have l: \<open>json_loads ''{"key": "value", "incomplete'' = Inl JSONDecodeError\<close> by code_simp
  have r: "attempt_repair json_loads ?fs ''corrupted.json'' = Inl OtherException" by code_simp
  note inst1 = safe_load_never_raises [of json_loads ?fs "''nonexistent.json''" "JDict [(''empty'', JBool True)]"]
  note inst2 = safe_load_never_raises [of json_loads ?fs "''corrupted.json''" "JDict [(''corrupted'', JBool True)]"]
  from inst1 a have s1: "safe_load json_loads ?fs ''nonexistent.json'' (JDict [(''empty'', JBool True)])
      = Inr (JDict [(''empty'', JBool True)])" by simp
  from inst2 have F: "\<And>content e.
        ?fs ''corrupted.json'' = Text content \<Longrightarrow> json_loads content = Inl e \<Longrightarrow>
        (e = JSONDecodeError \<longrightarrow> (\<exists>e'. attempt_repair json_loads ?fs ''corrupted.json'' = Inl e')) \<Longrightarrow>
        safe_load json_loads ?fs ''corrupted.json'' (JDict [(''corrupted'', JBool True)]) =
          Inr (if JDict [(''corrupted'', JBool True)] \<noteq> JNull then JDict [(''corrupted'', JBool True)] else JDict [])"
    by blast
  from F [OF t l] r have s2: "safe_load json_loads ?fs ''corrupted.json'' (JDict [(''corrupted'', JBool True)])
      = Inr (JDict [(''corrupted'', JBool True)])" by simp
  from a s1 l r s2 show ?thesis by blast
qed

text \<open>The claim C3 as stated fails for the default \<^verbatim>\<open>None\<close>: for an absent file the
  result is the empty dictionary, not the default.\<close>

theorem safe_load_default_none_counterexample:
  "(\<lambda>p. Absent) ''sessions-2025-12.json'' = Absent
   \<and> safe_load json_loads (\<lambda>p. Absent) ''sessions-2025-12.json'' JNull = Inr (JDict [])
   \<and> JDict [] \<noteq> JNull"
  by (simp add: safe_load_def open_read_def)

text \<open>
  C4 (amended). The repair goes through the closing braces and brackets of the text from
  the last to the first and returns the first prefix, cut after such a character, that
  parses; \<^verbatim>\<open>safe_load\<close> returns the default (the empty dictionary for \<^verbatim>\<open>None\<close>) only when
  no such prefix parses, or when the parser raises something other than a decoding error.
\<close>

theorem repair_tries_each_closer:
  "attempt_repair loads fs filepath =
     (case open_read fs filepath of
        Inl e \<Rightarrow> Inl e
      | Inr content \<Rightarrow>
          (case find (\<lambda>i. loads (take (Suc i) content) \<noteq> Inl JSONDecodeError)
                  (closer_positions content) of
             None \<Rightarrow> Inl OtherException
           | Some i \<Rightarrow> loads (take (Suc i) content)))
   \<and> (fs filepath = Text content \<and> loads content = Inl JSONDecodeError \<longrightarrow>
        safe_load loads fs filepath dflt =
          (case find (\<lambda>i. loads (take (Suc i) content) \<noteq> Inl JSONDecodeError)
                  (closer_positions content) of
             None \<Rightarrow> Inr (if dflt \<noteq> JNull then dflt else JDict [])
           | Some i \<Rightarrow>
               (case loads (take (Suc i) content) of
                  Inr v \<Rightarrow> Inr v
                | Inl e \<Rightarrow> Inr (if dflt \<noteq> JNull then dflt else JDict []))))"
proof (intro conjI impI)
  show "attempt_repair loads fs filepath =
     (case open_read fs filepath of
        Inl e \<Rightarrow> Inl e
      | Inr content \<Rightarrow>
          (case find (\<lambda>i. loads (take (Suc i) content) \<noteq> Inl JSONDecodeError)
                  (closer_positions content) of
             None \<Rightarrow> Inl OtherException
           | Some i \<Rightarrow> loads (take (Suc i) content)))"
    by (rule attempt_repair_find)
next
  assume a: "fs filepath = Text content \<and> loads content = Inl JSONDecodeError"
  then have o: "open_read fs filepath = Inr content" by (simp add: open_read_def)
  from a o have "safe_load loads fs filepath dflt =
      (case attempt_repair loads fs filepath of
         Inr v \<Rightarrow> Inr v
       | Inl e' \<Rightarrow> Inr (if dflt \<noteq> JNull then dflt else JDict []))"
    by (simp add: safe_load_def)
  then show "safe_load loads fs filepath dflt =
          (case find (\<lambda>i. loads (take (Suc i) content) \<noteq> Inl JSONDecodeError)
                  (closer_positions content) of
             None \<Rightarrow> Inr (if dflt \<noteq> JNull then dflt else JDict [])
           | Some i \<Rightarrow>
               (case loads (take (Suc i) content) of
                  Inr v \<Rightarrow> Inr v
                | Inl e \<Rightarrow> Inr (if dflt \<noteq> JNull then dflt else JDict [])))"
    by (simp add: attempt_repair_find o split: option.splits)
qed

theorem repair_tries_each_closer_witness:
  \<open>(\<lambda>p. Text ''{"key": "value", "complete": true}\<newline>{"incomplete'') ''corrupted.json''
      = Text ''{"key": "value", "complete": true}\<newline>{"incomplete''
   \<and> json_loads ''{"key": "value", "complete": true}\<newline>{"incomplete'' = Inl JSONDecodeError
   \<and> closer_positions ''{"key": "value", "complete": true}\<newline>{"incomplete'' = [33]
   \<and> safe_load json_loads (\<lambda>p. Text ''{"key": "value", "complete": true}\<newline>{"incomplete'')
        ''corrupted.json'' (JDict [])
      = Inr (JDict [(''key'', JStr ''value''), (''complete'', JBool True)])\<close>
proof -
  let ?c = \<open>''{"key": "value", "complete": true}\<newline>{"incomplete''\<close>
  have t: "(\<lambda>p. Text ?c) ''corrupted.json'' = Text ?c" by simp
  have l: "json_loads ?c = Inl JSONDecodeError" by code_simp
  have c: "closer_positions ?c = [33]" by code_simp
  have p: \<open>json_loads ''{"key": "value", "complete": true}''
      = Inr (JDict [(''key'', JStr ''value''), (''complete'', JBool True)])\<close>
    by code_simp
  from repair_tries_each_closer [of json_loads "\<lambda>p. Text ?c" "''corrupted.json''" ?c "JDict []"] t l
  have "safe_load json_loads (\<lambda>p. Text ?c) ''corrupted.json'' (JDict []) =
          (case find (\<lambda>i. json_loads (take (Suc i) ?c) \<noteq> Inl JSONDecodeError)
                  (closer_positions ?c) of
             None \<Rightarrow> Inr (if JDict [] \<noteq> JNull then JDict [] else JDict [])
           | Some i \<Rightarrow>
               (case json_loads (take (Suc i) ?c) of
                  Inr v \<Rightarrow> Inr v
                | Inl e \<Rightarrow> Inr (if JDict [] \<noteq> JNull then JDict [] else JDict [])))"
    by blast
  then have "safe_load json_loads (\<lambda>p. Text ?c) ''corrupted.json'' (JDict [])
      = Inr (JDict [(''key'', JStr ''value''), (''complete'', JBool True)])"
    by (simp only: c) (simp add: p)
  with t l c show ?thesis by blast
qed

text \<open>The claim C4 as stated fails: the prefix cut at the last closing brace of
  \<^verbatim>\<open>{"a": 1}}\<close> does not parse, and yet the result is not the default, because the prefix
  cut at the brace before it is tried next and parses.\<close>

theorem repair_second_prefix_counterexample:
  \<open>json_loads ''{"a": 1}}'' = Inl JSONDecodeError
   \<and> closer_positions ''{"a": 1}}'' = [8, 7]
   \<and> json_loads (take (Suc 8) ''{"a": 1}}'') = Inl JSONDecodeError
   \<and> safe_load json_loads (\<lambda>p. Text ''{"a": 1}}'') ''sessions-2025-12.json'' (JStr ''default'')
      = Inr (JDict [(''a'', JInt 1)])
   \<and> JDict [(''a'', JInt 1)] \<noteq> JStr ''default''\<close>
proof -
  have a: \<open>json_loads ''{"a": 1}}'' = Inl JSONDecodeError\<close> by code_simp
  have b: \<open>closer_positions ''{"a": 1}}'' = [8, 7]\<close> by code_simp
  have c: \<open>json_loads (take (Suc 8) ''{"a": 1}}'') = Inl JSONDecodeError\<close> by code_simp
  have d: \<open>safe_load json_loads (\<lambda>p. Text ''{"a": 1}}'') ''sessions-2025-12.json'' (JStr ''default'')
      = Inr (JDict [(''a'', JInt 1)])\<close> by code_simp
  from a b c d show ?thesis by simp
qed

lemma load_monthly_file_step:
  "load_monthly_file loads fs (all_sessions, corrupted_files) f =
     (case partition_sessions (loaded_document loads fs f) of
        Some xs \<Rightarrow> (all_sessions @ xs, corrupted_files)
      | None \<Rightarrow> (all_sessions, corrupted_files @ [f]))"
proof -
  obtain d where d: "safe_load loads fs f JNull = Inr d" using safe_load_total by blast
  show ?thesis
    by (cases d)
       (auto simp: load_monthly_file_def loaded_document_def partition_sessions_def d
          py_contains_def py_getitem_def split: option.splits json.splits)
qed

lemma load_all_sessions_acc:
  "foldl (load_monthly_file loads fs) (all_sessions, corrupted_files) files =
     (all_sessions @ concat (map (\<lambda>f. case partition_sessions (loaded_document loads fs f) of
                                    Some xs \<Rightarrow> xs | None \<Rightarrow> []) files),
      corrupted_files @ filter (\<lambda>f. partition_sessions (loaded_document loads fs f) = None) files)"
  by (induction files arbitrary: all_sessions corrupted_files)
     (auto simp: load_monthly_file_step split: option.splits)

text \<open>
  C1 (amended). \<^verbatim>\<open>load_all_sessions\<close> never raises; it returns the concatenation, in the
  order of the files, of the session lists of the files whose loaded document is a
  dictionary with a list under \<^verbatim>\<open>sessions\<close>, and reports exactly the other files as
  corrupt, where the loaded document is what \<^verbatim>\<open>safe_load\<close> returns: for a text that does
  not parse, the repaired prefix if there is one. A file that holds
  \<^verbatim>\<open>{"sessions": "not-a-list"}\<close> is reported and contributes nothing.
\<close>

theorem load_all_sessions_partitions:
  "load_all_sessions loads fs files =
     (concat (map (\<lambda>f. case partition_sessions (loaded_document loads fs f) of
                        Some xs \<Rightarrow> xs | None \<Rightarrow> []) files),
      filter (\<lambda>f. partition_sessions (loaded_document loads fs f) = None) files)
   \<and> (\<forall>f content.
        fs f = Text content \<and> loads content = Inr (JDict [(''sessions'', JStr ''not-a-list'')])
        \<longrightarrow> partition_sessions (loaded_document loads fs f) = None)"
  by (auto simp: load_all_sessions_def load_all_sessions_acc loaded_document_def safe_load_def
        open_read_def partition_sessions_def)

theorem load_all_sessions_partitions_witness:
  \<open>example_partitions ''sessions-2025-11.json'' = Text ''{"sessions": "not-a-list"}''
   \<and> json_loads ''{"sessions": "not-a-list"}'' = Inr (JDict [(''sessions'', JStr ''not-a-list'')])
   \<and> partition_sessions (loaded_document json_loads example_partitions ''sessions-2025-11.json'')
       = None
   \<and> load_all_sessions json_loads example_partitions
        [''sessions-2025-10.json'', ''sessions-2025-11.json'']
       = ([JDict [(''session_id'', JStr ''a'')]], [''sessions-2025-11.json''])\<close>
proof -
  have t: \<open>example_partitions ''sessions-2025-11.json'' = Text ''{"sessions": "not-a-list"}''\<close>
    by (simp add: example_partitions_def)
  have l: \<open>json_loads ''{"sessions": "not-a-list"}'' = Inr (JDict [(''sessions'', JStr ''not-a-list'')])\<close>
    by code_simp
  have d10: "loaded_document json_loads example_partitions ''sessions-2025-10.json''
      = JDict [(''sessions'', JList [JDict [(''session_id'', JStr ''a'')]])]"
    by code_simp
  have p10: "partition_sessions (loaded_document json_loads example_partitions ''sessions-2025-10.json'')
      = Some [JDict [(''session_id'', JStr ''a'')]]"
    by (simp add: d10 partition_sessions_def)
  note inst = load_all_sessions_partitions [of json_loads example_partitions
      "[''sessions-2025-10.json'', ''sessions-2025-11.json'']"]
  from inst t l
  have n: "partition_sessions (loaded_document json_loads example_partitions ''sessions-2025-11.json'')
       = None" by blast
  from inst have "load_all_sessions json_loads example_partitions
        [''sessions-2025-10.json'', ''sessions-2025-11.json'']
       = ([JDict [(''session_id'', JStr ''a'')]], [''sessions-2025-11.json''])"
    by (simp add: n p10)
  with t l n show ?thesis by blast
qed

text \<open>The claim C1 as stated fails: the text of the third example file does not parse,
  but its repaired prefix is a well-formed partition, so the file is not reported and its
  session is returned.\<close>

theorem load_all_sessions_repaired_counterexample:
  \<open>example_partitions ''sessions-2025-12.json''
      = Text ''{"sessions": [{"session_id": "b"}]}\<newline>{"incomple''
   \<and> json_loads ''{"sessions": [{"session_id": "b"}]}\<newline>{"incomple'' = Inl JSONDecodeError
   \<and> load_all_sessions json_loads example_partitions
        [''sessions-2025-10.json'', ''sessions-2025-12.json'']
       = ([JDict [(''session_id'', JStr ''a'')], JDict [(''session_id'', JStr ''b'')]], [])\<close>
proof -
  have a: \<open>example_partitions ''sessions-2025-12.json''
      = Text ''{"sessions": [{"session_id": "b"}]}\<newline>{"incomple''\<close>
    by (simp add: example_partitions_def)
  have b: \<open>json_loads ''{"sessions": [{"session_id": "b"}]}\<newline>{"incomple'' = Inl JSONDecodeError\<close>
    by code_simp
  have c: \<open>load_all_sessions json_loads example_partitions
        [''sessions-2025-10.json'', ''sessions-2025-12.json'']
       = ([JDict [(''session_id'', JStr ''a'')], JDict [(''session_id'', JStr ''b'')]], [])\<close>
    by code_simp
  from a b c show ?thesis by simp
qed

subsection \<open>Appending: merge_monthly\<close>

lemma dict_get_set_same: "dict_get (dict_set d k v) k = Some v"
  by (induction d) auto

lemma dict_get_set_other: "k' \<noteq> k \<Longrightarrow> dict_get (dict_set d k v) k' = dict_get d k'"
  by (induction d) auto

lemma save_attempts_True:
  "save_attempts dumps loads io fs filepath data attempt left = (True, fs') \<Longrightarrow>
   fs' = fs(filepath := Text (dumps data))"
  by (induction left arbitrary: attempt) (auto split: if_splits)

lemma safe_save_True:
  "safe_save dumps loads io fs filepath data n = (True, fs') \<Longrightarrow>
   fs' = fs(filepath := Text (dumps data))"
  unfolding safe_save_def by (rule save_attempts_True)

lemma save_attempts_succeeds:
  "attempt \<le> a \<Longrightarrow> a < attempt + left \<Longrightarrow> io a \<Longrightarrow>
   (case loads (dumps data) of Inr v \<Rightarrow> True | Inl e \<Rightarrow> False) \<Longrightarrow>
   save_attempts dumps loads io fs filepath data attempt left
     = (True, fs(filepath := Text (dumps data)))"
proof (induction left arbitrary: attempt)
  case 0
  then show ?case by simp
next
  case (Suc left)
  show ?case
  proof (cases "io attempt")
    case True
    with Suc.prems show ?thesis by (cases "loads (dumps data)") (simp_all add: fun_upd_def)
  next
    case False
    with Suc.prems have "Suc attempt \<le> a" by (cases "a = attempt") auto
    moreover from Suc.prems have "a < Suc attempt + left" by simp
    ultimately have "save_attempts dumps loads io fs filepath data (Suc attempt) left
        = (True, fs(filepath := Text (dumps data)))"
      using Suc.prems by (intro Suc.IH) auto
    with False show ?thesis by (simp add: fun_upd_def)
  qed
qed

lemma safe_save_succeeds:
  "save_succeeds dumps loads io data \<Longrightarrow>
   safe_save dumps loads io fs filepath data 3 = (True, fs(filepath := Text (dumps data)))"
  unfolding save_succeeds_def safe_save_def
  using save_attempts_succeeds [of 0 _ 3 io loads dumps data fs filepath] by auto

lemma merge_monthly_alt:
  assumes "safe_load loads fs p (JDict [(''sessions'', JList [])]) = Inr loaded"
    and "e1 = (case loaded of JDict kvs \<Rightarrow> kvs | _ \<Rightarrow> [(''sessions'', JList [])])"
    and "e2 = (if dict_get e1 ''sessions'' = None then dict_set e1 ''sessions'' (JList []) else e1)"
  shows "merge_monthly dumps loads io fs r p =
     (case dict_get e2 ''sessions'' of
        Some (JList ss) \<Rightarrow>
          safe_save dumps loads io fs p
            (JDict (dict_set (dict_set (dict_set e2 ''sessions'' (JList (ss @ [JDict r])))
                      ''count'' (JInt (int (length (ss @ [JDict r])))))
                      ''last_updated'' (record_timestamp r))) 3
      | _ \<Rightarrow> (False, fs))"
  using assms(1) unfolding assms(2,3) merge_monthly_def record_timestamp_def Let_def
  by (simp split: option.splits json.splits)

text \<open>
  C9. After an append that \<^verbatim>\<open>merge_monthly\<close> reports as saved, the file holds a document
  whose \<^verbatim>\<open>sessions\<close> are the sessions loaded before followed by the new record, whose
  \<^verbatim>\<open>count\<close> is the length of that list and whose \<^verbatim>\<open>last_updated\<close> is the timestamp of
  the new record: both are computed from the list and the record, whatever the file held
  under these keys.
\<close>

theorem merge_monthly_recomputes:
  assumes "merge_monthly dumps loads io fs session_record monthly_filepath = (True, fs')"
  shows "\<exists>doc loaded old_sessions.
           fs' = fs(monthly_filepath := Text (dumps (JDict doc)))
         \<and> safe_load loads fs monthly_filepath (JDict [(''sessions'', JList [])]) = Inr loaded
         \<and> old_sessions = (case partition_sessions loaded of Some xs \<Rightarrow> xs | None \<Rightarrow> [])
         \<and> dict_get doc ''sessions'' = Some (JList (old_sessions @ [JDict session_record]))
         \<and> dict_get doc ''count'' = Some (JInt (int (length (old_sessions @ [JDict session_record]))))
         \<and> dict_get doc ''last_updated'' = Some (record_timestamp session_record)"
proof -
  obtain loaded where l: "safe_load loads fs monthly_filepath (JDict [(''sessions'', JList [])]) = Inr loaded"
    using safe_load_total by blast
  define e1 where "e1 = (case loaded of JDict kvs \<Rightarrow> kvs | _ \<Rightarrow> [(''sessions'', JList [])])"
  define e2 where "e2 = (if dict_get e1 ''sessions'' = None then dict_set e1 ''sessions'' (JList []) else e1)"
  note alt = merge_monthly_alt [OF l e1_def e2_def, of dumps io session_record]
  from assms alt obtain sessions where s: "dict_get e2 ''sessions'' = Some (JList sessions)"
    by (cases "dict_get e2 ''sessions''") (auto split: json.splits)
  define doc where "doc = dict_set (dict_set (dict_set e2 ''sessions'' (JList (sessions @ [JDict session_record])))
       ''count'' (JInt (int (length (sessions @ [JDict session_record])))))
       ''last_updated'' (record_timestamp session_record)"
  from assms alt s have sv: "safe_save dumps loads io fs monthly_filepath (JDict doc) 3 = (True, fs')"
    by (simp add: doc_def)
  have old: "sessions = (case partition_sessions loaded of Some xs \<Rightarrow> xs | None \<Rightarrow> [])"
  proof (cases "\<exists>kvs. loaded = JDict kvs")
    case False
    then have "e1 = [(''sessions'', JList [])]" by (cases loaded) (auto simp: e1_def)
    with s False show ?thesis by (cases loaded) (auto simp: e2_def partition_sessions_def)
  next
    case True
    then obtain kvs where k: "loaded = JDict kvs" by blast
    then have e1: "e1 = kvs" by (simp add: e1_def)
    show ?thesis
    proof (cases "dict_get kvs ''sessions''")
      case None
      with s e1 k show ?thesis by (simp add: e2_def dict_get_set_same partition_sessions_def)
    next
      case (Some v)
      with s e1 k show ?thesis by (simp add: e2_def partition_sessions_def)
    qed
  qed
  have g1: "dict_get doc ''sessions'' = Some (JList (sessions @ [JDict session_record]))"
    by (simp add: doc_def dict_get_set_same dict_get_set_other)
  have g2: "dict_get doc ''count'' = Some (JInt (int (length (sessions @ [JDict session_record]))))"
    by (simp add: doc_def dict_get_set_same dict_get_set_other)
  have g3: "dict_get doc ''last_updated'' = Some (record_timestamp session_record)"
    by (simp add: doc_def dict_get_set_same)
  from safe_save_True [OF sv] l old g1 g2 g3 show ?thesis by blast
qed

theorem merge_monthly_recomputes_witness:
  "merge_monthly json_dumps json_loads (\<lambda>n. True) stale_partition new_record ''sessions-2025-12.json''
     = (True, snd (merge_monthly json_dumps json_loads (\<lambda>n. True) stale_partition new_record
                     ''sessions-2025-12.json''))
   \<and> (\<exists>doc.
         snd (merge_monthly json_dumps json_loads (\<lambda>n. True) stale_partition new_record
                ''sessions-2025-12.json'')
           = stale_partition(''sessions-2025-12.json'' := Text (json_dumps (JDict doc)))
       \<and> dict_get doc ''sessions''
           = Some (JList [JDict [(''session_id'', JStr ''old'')], JDict new_record])
       \<and> dict_get doc ''count'' = Some (JInt 2)
       \<and> dict_get doc ''last_updated'' = Some (JStr ''2025-12-31T10:00:00Z''))"
proof -
  let ?m = "merge_monthly json_dumps json_loads (\<lambda>n. True) stale_partition new_record
              ''sessions-2025-12.json''"
  have "fst ?m = True" by code_simp
  then have h: "?m = (True, snd ?m)" by (simp add: prod_eq_iff)
  have ld: "safe_load json_loads stale_partition ''sessions-2025-12.json''
              (JDict [(''sessions'', JList [])])
      = Inr (JDict [(''sessions'', JList [JDict [(''session_id'', JStr ''old'')]]),
                    (''count'', JInt 7), (''last_updated'', JStr ''never'')])"
    by code_simp
  have ts: "record_timestamp new_record = JStr ''2025-12-31T10:00:00Z''" by code_simp
  from merge_monthly_recomputes [OF h] obtain doc loaded old_sessions where
    d: "snd ?m = stale_partition(''sessions-2025-12.json'' := Text (json_dumps (JDict doc)))"
    and l: "safe_load json_loads stale_partition ''sessions-2025-12.json''
              (JDict [(''sessions'', JList [])]) = Inr loaded"
    and o: "old_sessions = (case partition_sessions loaded of Some xs \<Rightarrow> xs | None \<Rightarrow> [])"
    and g1: "dict_get doc ''sessions'' = Some (JList (old_sessions @ [JDict new_record]))"
    and g2: "dict_get doc ''count'' = Some (JInt (int (length (old_sessions @ [JDict new_record]))))"
    and g3: "dict_get doc ''last_updated'' = Some (record_timestamp new_record)"
    by blast
  from l ld have "loaded = JDict [(''sessions'', JList [JDict [(''session_id'', JStr ''old'')]]),
                    (''count'', JInt 7), (''last_updated'', JStr ''never'')]" by simp
  with o have old: "old_sessions = [JDict [(''session_id'', JStr ''old'')]]"
    by (simp add: partition_sessions_def)
  from d g1 g2 g3 have "snd ?m = stale_partition(''sessions-2025-12.json'' := Text (json_dumps (JDict doc)))
       \<and> dict_get doc ''sessions''
           = Some (JList [JDict [(''session_id'', JStr ''old'')], JDict new_record])
       \<and> dict_get doc ''count'' = Some (JInt 2)
       \<and> dict_get doc ''last_updated'' = Some (JStr ''2025-12-31T10:00:00Z'')"
    by (simp add: old ts)
  with h show ?thesis by blast
qed

text \<open>
  C10. When the document loaded from the target is not a dictionary, \<^verbatim>\<open>merge_monthly\<close>
  saves a fresh document that holds the new record only, \<^verbatim>\<open>count\<close> 1 and the timestamp;
  when it is a dictionary without \<^verbatim>\<open>sessions\<close>, the new record alone is stored under
  that key. In both cases the result is \<^verbatim>\<open>True\<close> whenever the save succeeds: nothing
  tells the caller what was dropped.
\<close>

theorem merge_monthly_discards_silently:
  assumes "safe_load loads fs monthly_filepath (JDict [(''sessions'', JList [])]) = Inr loaded"
  shows "((\<forall>kvs. loaded \<noteq> JDict kvs) \<and>
          save_succeeds dumps loads io
            (JDict [(''sessions'', JList [JDict session_record]), (''count'', JInt 1),
                    (''last_updated'', record_timestamp session_record)]) \<longrightarrow>
          merge_monthly dumps loads io fs session_record monthly_filepath =
            (True, fs(monthly_filepath := Text (dumps
               (JDict [(''sessions'', JList [JDict session_record]), (''count'', JInt 1),
                       (''last_updated'', record_timestamp session_record)])))))
       \<and> (\<forall>kvs. loaded = JDict kvs \<and> dict_get kvs ''sessions'' = None \<and>
             save_succeeds dumps loads io
               (JDict (dict_set (dict_set (dict_set kvs ''sessions'' (JList [JDict session_record]))
                          ''count'' (JInt 1)) ''last_updated'' (record_timestamp session_record))) \<longrightarrow>
             merge_monthly dumps loads io fs session_record monthly_filepath =
               (True, fs(monthly_filepath := Text (dumps
                  (JDict (dict_set (dict_set (dict_set kvs ''sessions'' (JList [JDict session_record]))
                          ''count'' (JInt 1)) ''last_updated'' (record_timestamp session_record))))))
             \<and> dict_get (dict_set (dict_set (dict_set kvs ''sessions'' (JList [JDict session_record]))
                          ''count'' (JInt 1)) ''last_updated'' (record_timestamp session_record))
                  ''sessions'' = Some (JList [JDict session_record]))"
proof (intro conjI allI impI)
  assume a: "(\<forall>kvs. loaded \<noteq> JDict kvs) \<and>
          save_succeeds dumps loads io
            (JDict [(''sessions'', JList [JDict session_record]), (''count'', JInt 1),
                    (''last_updated'', record_timestamp session_record)])"
  then have e1: "(case loaded of JDict kvs \<Rightarrow> kvs | _ \<Rightarrow> [(''sessions'', JList [])])
      = [(''sessions'', JList [])]" by (cases loaded) auto
  from a show "merge_monthly dumps loads io fs session_record monthly_filepath =
            (True, fs(monthly_filepath := Text (dumps
               (JDict [(''sessions'', JList [JDict session_record]), (''count'', JInt 1),
                       (''last_updated'', record_timestamp session_record)]))))"
    by (simp add: merge_monthly_alt [OF assms refl refl] e1 safe_save_succeeds)
next
  fix kvs
  assume a: "loaded = JDict kvs \<and> dict_get kvs ''sessions'' = None \<and>
             save_succeeds dumps loads io
               (JDict (dict_set (dict_set (dict_set kvs ''sessions'' (JList [JDict session_record]))
                          ''count'' (JInt 1)) ''last_updated'' (record_timestamp session_record)))"
  have twice: "\<And>d k v w. dict_set (dict_set d k v) k w = dict_set d k w"
  proof -
    fix d :: "(string \<times> json) list" and k v w
    show "dict_set (dict_set d k v) k w = dict_set d k w" by (induction d) auto
  qed
  from a show "merge_monthly dumps loads io fs session_record monthly_filepath =
               (True, fs(monthly_filepath := Text (dumps
                  (JDict (dict_set (dict_set (dict_set kvs ''sessions'' (JList [JDict session_record]))
                          ''count'' (JInt 1)) ''last_updated'' (record_timestamp session_record))))))"
    by (simp add: merge_monthly_alt [OF assms refl refl] dict_get_set_same twice safe_save_succeeds)
  show "dict_get (dict_set (dict_set (dict_set kvs ''sessions'' (JList [JDict session_record]))
                          ''count'' (JInt 1)) ''last_updated'' (record_timestamp session_record))
                  ''sessions'' = Some (JList [JDict session_record])"
    by (simp add: dict_get_set_same dict_get_set_other)
qed

theorem merge_monthly_discards_silently_witness:
  "safe_load json_loads stale_partition ''sessions-2025-11.json'' (JDict [(''sessions'', JList [])])
     = Inr (JList [JInt 1, JInt 2, JInt 3])
   \<and> save_succeeds json_dumps json_loads (\<lambda>n. True)
        (JDict [(''sessions'', JList [JDict new_record]), (''count'', JInt 1),
                (''last_updated'', record_timestamp new_record)])
   \<and> merge_monthly json_dumps json_loads (\<lambda>n. True) stale_partition new_record
        ''sessions-2025-11.json''
      = (True, stale_partition(''sessions-2025-11.json'' := Text (json_dumps
          (JDict [(''sessions'', JList [JDict new_record]), (''count'', JInt 1),
                  (''last_updated'', JStr ''2025-12-31T10:00:00Z'')]))))
   \<and> safe_load json_loads stale_partition ''sessions-2025-10.json'' (JDict [(''sessions'', JList [])])
     = Inr (JDict [(''note'', JStr ''kept''), (''count'', JInt 5)])
   \<and> dict_get [(''note'', JStr ''kept''), (''count'', JInt 5)] ''sessions'' = None
   \<and> merge_monthly json_dumps json_loads (\<lambda>n. True) stale_partition new_record
        ''sessions-2025-10.json''
      = (True, stale_partition(''sessions-2025-10.json'' := Text (json_dumps
          (JDict [(''note'', JStr ''kept''), (''count'', JInt 1),
                  (''sessions'', JList [JDict new_record]),
                  (''last_updated'', JStr ''2025-12-31T10:00:00Z'')]))))"
proof -
  let ?io = "\<lambda>n::nat. True"
  let ?doc1 = "JDict [(''sessions'', JList [JDict new_record]), (''count'', JInt 1),
                (''last_updated'', record_timestamp new_record)]"
  let ?kvs = "[(''note'', JStr ''kept''), (''count'', JInt 5)]"
  let ?doc2 = "JDict (dict_set (dict_set (dict_set ?kvs ''sessions'' (JList [JDict new_record]))
                          ''count'' (JInt 1)) ''last_updated'' (record_timestamp new_record))"
  have ts: "record_timestamp new_record = JStr ''2025-12-31T10:00:00Z''" by code_simp
  have l1: "safe_load json_loads stale_partition ''sessions-2025-11.json''
      (JDict [(''sessions'', JList [])]) = Inr (JList [JInt 1, JInt 2, JInt 3])" by code_simp
  have l2: "safe_load json_loads stale_partition ''sessions-2025-10.json''
      (JDict [(''sessions'', JList [])]) = Inr (JDict ?kvs)" by code_simp
  have ex: "\<exists>attempt<3. ?io attempt" by (rule exI [where x = 0]) simp
  have r1: "(case json_loads (json_dumps ?doc1) of Inr v \<Rightarrow> True | Inl e \<Rightarrow> False)" by code_simp
  have r2: "(case json_loads (json_dumps ?doc2) of Inr v \<Rightarrow> True | Inl e \<Rightarrow> False)" by code_simp
  have s1: "save_succeeds json_dumps json_loads ?io ?doc1"
    unfolding save_succeeds_def using ex r1 by blast
  have s2: "save_succeeds json_dumps json_loads ?io ?doc2"
    unfolding save_succeeds_def using ex r2 by blast
  have n: "dict_get ?kvs ''sessions'' = None" by simp
  have d2: "?doc2 = JDict [(''note'', JStr ''kept''), (''count'', JInt 1),
                  (''sessions'', JList [JDict new_record]),
                  (''last_updated'', JStr ''2025-12-31T10:00:00Z'')]"
    by (simp add: ts)
  from merge_monthly_discards_silently [OF l1, of json_dumps ?io new_record] s1
  have m1: "merge_monthly json_dumps json_loads ?io stale_partition new_record
        ''sessions-2025-11.json''
      = (True, stale_partition(''sessions-2025-11.json'' := Text (json_dumps ?doc1)))"
    by simp
  from merge_monthly_discards_silently [OF l2, of json_dumps ?io new_record] s2 n
  have m2: "merge_monthly json_dumps json_loads ?io stale_partition new_record
        ''sessions-2025-10.json''
      = (True, stale_partition(''sessions-2025-10.json'' := Text (json_dumps ?doc2)))"
    by blast
  from l1 s1 m1 l2 n m2 show ?thesis unfolding d2 by (simp add: ts)
qed

subsection \<open>Loading the configuration\<close>

text \<open>
  C2. The claim is that the thresholds which \<^verbatim>\<open>load_config\<close> returns are in the order
  emerging, strong, critical. The code does not ensure it: \<^verbatim>\<open>load_config\<close> clamps each
  threshold to its own range and never calls \<^verbatim>\<open>validate_config\<close>. For the file below it
  returns 10, 3 and 5, a configuration that \<^verbatim>\<open>validate_config\<close> rejects.
\<close>

theorem load_config_unordered_thresholds:
  "emerging_pattern (load_config (Text unordered_config_file)) = 10
   \<and> strong_pattern (load_config (Text unordered_config_file)) = 3
   \<and> critical_pattern (load_config (Text unordered_config_file)) = 5
   \<and> \<not> (emerging_pattern (load_config (Text unordered_config_file))
          \<le> strong_pattern (load_config (Text unordered_config_file)))
   \<and> \<not> validate_config (load_config (Text unordered_config_file))"
proof -
  have y: "re_search pat_frontmatter unordered_config_file =
     Some \<lparr> skipped = [],
            matched = ''---\<newline>thresholds:\<newline>  emerging_pattern: 10\<newline>  strong_pattern: 3\<newline>  critical_pattern: 5\<newline>---'',
            group1 = Some ''thresholds:\<newline>  emerging_pattern: 10\<newline>  strong_pattern: 3\<newline>  critical_pattern: 5'',
            after = (Some (CHR ''-''), ''\<newline>'') \<rparr>"
    by code_simp
  have e: "parse_int ''thresholds:\<newline>  emerging_pattern: 10\<newline>  strong_pattern: 3\<newline>  critical_pattern: 5''
             ''emerging_pattern'' 2 1 100 = 10" by code_simp
  have s: "parse_int ''thresholds:\<newline>  emerging_pattern: 10\<newline>  strong_pattern: 3\<newline>  critical_pattern: 5''
             ''strong_pattern'' 3 1 100 = 3" by code_simp
  have c: "parse_int ''thresholds:\<newline>  emerging_pattern: 10\<newline>  strong_pattern: 3\<newline>  critical_pattern: 5''
             ''critical_pattern'' 5 1 100 = 5" by code_simp
  have 1: "emerging_pattern (load_config (Text unordered_config_file)) = 10"
    by (simp add: load_config_def y group_1_def Let_def e)
  have 2: "strong_pattern (load_config (Text unordered_config_file)) = 3"
    by (simp add: load_config_def y group_1_def Let_def s)
  have 3: "critical_pattern (load_config (Text unordered_config_file)) = 5"
    by (simp add: load_config_def y group_1_def Let_def c)
  from 1 2 3 show ?thesis by (simp add: validate_config_def)
qed

end
